theory Spec2Isabelle
  imports Main "HOL-Library.Sublist"
begin

section \<open>Configuration\<close>

text \<open>
  The class \<open>Config\<close> reads its attributes from the environment once. An
  environment variable that is not set is \<open>None\<close>; an f-string prints it as the
  four letters \<open>None\<close>.
\<close>

record config =
  SERVICE_ACCOUNT_FILE :: "string option"
  SCOPES :: "string option"
  PROJECT_ID :: "string option"
  LOCATION :: "string option"
  INSTANCE_ID :: "string option"
  GCS_BUCKET :: "string option"
  SECOPS_API_BASE_URL :: "string option"
  TIMEOUT :: int

definition fmt_env :: "string option \<Rightarrow> string" where
  "fmt_env v = (case v of None \<Rightarrow> ''None'' | Some s \<Rightarrow> s)"

definition API_BASE_URL :: "config \<Rightarrow> string" where
  "API_BASE_URL cfg =
     (case SECOPS_API_BASE_URL cfg of
        Some u \<Rightarrow> u
      | None \<Rightarrow> ''https://chronicle.'' @ fmt_env (LOCATION cfg) @ ''.googleapis.com'')"

definition INSTANCE_BASE_PATH :: "config \<Rightarrow> string" where
  "INSTANCE_BASE_PATH cfg =
     ''v1alpha/projects/'' @ fmt_env (PROJECT_ID cfg) @ ''/locations/'' @ fmt_env (LOCATION cfg)
       @ ''/instances/'' @ fmt_env (INSTANCE_ID cfg)"

section \<open>Identifier normalisation\<close>

text \<open>
  \<open>_normalize_id\<close> on a \<open>str\<close>. Python's \<open>a in b\<close> on strings is the contiguous
  substring test, \<open>b.startswith(a)\<close> the prefix test.
\<close>

definition normalize_id :: "config \<Rightarrow> string \<Rightarrow> string" where
  "normalize_id cfg export_id =
     (if \<not> sublist ''projects/'' export_id
        then INSTANCE_BASE_PATH cfg @ ''/dataExports/'' @ export_id
      else if prefix ''projects/'' export_id
        then ''v1alpha/'' @ export_id
      else export_id)"

section \<open>Python values and JSON\<close>

text \<open>
  The values that \<open>resp.json()\<close> produces: \<open>None\<close>, booleans, integers, strings, lists
  and dictionaries with string keys. A dictionary is the list of its items in insertion
  order, each key once. Numbers that are not integers are left out: no function of the
  program looks into a number.
\<close>

datatype json =
    JNull
  | JBool bool
  | JNum int
  | JStr string
  | JArr "json list"
  | JObj "(string \<times> json) list"

text \<open>An HTTP response: the status code, the body as text, and what \<open>.json()\<close> makes of
  the body (\<open>None\<close> when the body is not JSON and \<open>.json()\<close> raises).\<close>

record response =
  resp_status :: nat
  resp_text :: string
  resp_json :: "json option"

text \<open>The exceptions that reach the handlers of the program.\<close>

datatype exn =
    KeyboardInterrupt
  | HTTPError response
  | RequestFailure
  | JSONDecodeError
  | AttributeError
  | TypeError
  | ValueError
  | CredentialsError
  | OverflowError

text \<open>\<open>bool(v)\<close>, as \<open>if v\<close>, \<open>not v\<close> and \<open>a or b\<close> use it.\<close>

fun truthy :: "json \<Rightarrow> bool" where
  "truthy JNull = False"
| "truthy (JBool b) = b"
| "truthy (JNum n) = (n \<noteq> 0)"
| "truthy (JStr s) = (s \<noteq> [])"
| "truthy (JArr xs) = (xs \<noteq> [])"
| "truthy (JObj kvs) = (kvs \<noteq> [])"

text \<open>\<open>v.get(k, d)\<close>: only a dictionary has the method.\<close>

fun py_get :: "json \<Rightarrow> string \<Rightarrow> json \<Rightarrow> exn + json" where
  "py_get (JObj kvs) k d = Inr (case map_of kvs k of Some v \<Rightarrow> v | None \<Rightarrow> d)"
| "py_get _ k d = Inl AttributeError"

section \<open>Effects\<close>

text \<open>
  An f-string is the list of its parts. A part whose text is made by the Python library
  from a value that need not be a string is kept as that value: \<open>Str v\<close> is \<open>str(v)\<close>,
  \<open>Ljust v n\<close> is \<open>format(v, '<n')\<close>, \<open>Exc e\<close> is \<open>str(e)\<close>, \<open>Dumps v\<close> is
  \<open>json.dumps(v, indent=2)\<close> and \<open>Clock\<close> is the local time as \<open>%H:%M:%S\<close>.
\<close>

datatype piece =
    Lit string
  | Str json
  | Ljust json nat
  | Exc exn
  | Dumps json
  | Clock

datatype effect =
    Print "piece list"
  | GET "piece list" int
  | POST "piece list" "json option" int
  | Sleep nat
  | Load_credentials string "string option"

text \<open>
  The run so far: how many requests were sent, how many sleeps were started, and every
  effect in the order it happened.
\<close>

record st =
  requests :: nat
  naps :: nat
  trace :: "effect list"

text \<open>
  What is outside the program: whether the credential file loads, the clock, the outcome of
  the k-th request and whether the k-th sleep is cut short by Ctrl+C.
\<close>

datatype net = Reply response | Failure | Interrupt

record datetime =
  year :: int
  month :: int
  day :: int
  hour :: int
  minute :: int
  second :: int
  microsecond :: int

record world =
  credentials_load :: bool
  utc_now :: datetime
  replies :: "nat \<Rightarrow> net"
  sleep_interrupted :: "nat \<Rightarrow> bool"

type_synonym 'a io = "st \<Rightarrow> (exn + 'a) \<times> st"

definition bind :: "'a io \<Rightarrow> ('a \<Rightarrow> 'b io) \<Rightarrow> 'b io" where
  "bind m f s = (case m s of (Inl e, s') \<Rightarrow> (Inl e, s') | (Inr x, s') \<Rightarrow> f x s')"

definition lift :: "exn + 'a \<Rightarrow> 'a io" where
  "lift r s = (r, s)"

definition emit :: "effect \<Rightarrow> st \<Rightarrow> st" where
  "emit e s = s\<lparr>trace := trace s @ [e]\<rparr>"

definition print :: "piece list \<Rightarrow> unit io" where
  "print ps s = (Inr (), emit (Print ps) s)"

text \<open>A call of \<open>session.get\<close> or \<open>session.post\<close>: the request is recorded, then the
  world answers, fails or interrupts.\<close>

definition send :: "world \<Rightarrow> effect \<Rightarrow> response io" where
  "send w e s =
     (let s' = (emit e s)\<lparr>requests := requests s + 1\<rparr>
      in case replies w (requests s) of
           Reply r \<Rightarrow> (Inr r, s')
         | Failure \<Rightarrow> (Inl RequestFailure, s')
         | Interrupt \<Rightarrow> (Inl KeyboardInterrupt, s'))"

definition raise_for_status :: "response \<Rightarrow> exn + unit" where
  "raise_for_status r =
     (if 400 \<le> resp_status r \<and> resp_status r < 600 then Inl (HTTPError r) else Inr ())"

definition json_of :: "response \<Rightarrow> exn + json" where
  "json_of r = (case resp_json r of None \<Rightarrow> Inl JSONDecodeError | Some j \<Rightarrow> Inr j)"

definition sleep :: "world \<Rightarrow> nat \<Rightarrow> unit io" where
  "sleep w n s =
     (let s' = (emit (Sleep n) s)\<lparr>naps := naps s + 1\<rparr>
      in if sleep_interrupted w (naps s) then (Inl KeyboardInterrupt, s') else (Inr (), s'))"

section \<open>Status of one export\<close>

text \<open>
  The identifier that reaches \<open>_normalize_id\<close> is whatever the caller passed: a string
  from the command line, or the \<open>name\<close> of the creation response. On a value that is
  not a string, \<open>in\<close> raises \<open>TypeError\<close> (\<open>None\<close>, numbers), or tests membership
  (lists, dictionary keys), after which \<open>startswith\<close> raises \<open>AttributeError\<close>.
\<close>

fun full_path_of :: "config \<Rightarrow> json \<Rightarrow> exn + piece list" where
  "full_path_of cfg (JStr s) = Inr [Lit (normalize_id cfg s)]"
| "full_path_of cfg (JArr xs) =
     (if JStr ''projects/'' \<notin> set xs
        then Inr [Lit (INSTANCE_BASE_PATH cfg), Lit ''/dataExports/'', Str (JArr xs)]
      else Inl AttributeError)"
| "full_path_of cfg (JObj kvs) =
     (if ''projects/'' \<notin> set (map fst kvs)
        then Inr [Lit (INSTANCE_BASE_PATH cfg), Lit ''/dataExports/'', Str (JObj kvs)]
      else Inl AttributeError)"
| "full_path_of cfg _ = Inl TypeError"

definition get_data_export_status :: "config \<Rightarrow> world \<Rightarrow> json \<Rightarrow> json io" where
  "get_data_export_status cfg w export_id =
     bind (lift (full_path_of cfg export_id)) (\<lambda>full_path.
     bind (send w (GET ([Lit (API_BASE_URL cfg), Lit ''/''] @ full_path) (TIMEOUT cfg))) (\<lambda>resp.
     bind (lift (raise_for_status resp)) (\<lambda>_.
     lift (json_of resp))))"

section \<open>The tracker\<close>

text \<open>\<open>status_data.get("dataExportStatus", {}).get("stage", "UNKNOWN")\<close>.\<close>

definition stage_of :: "json \<Rightarrow> exn + json" where
  "stage_of status_data =
     (case py_get status_data ''dataExportStatus'' (JObj []) of
        Inl e \<Rightarrow> Inl e
      | Inr st \<Rightarrow> py_get st ''stage'' (JStr ''UNKNOWN''))"

text \<open>
  The body of \<open>while True\<close>. The loop has no bound: where it never stops, the result is
  \<open>None\<close>. An exception leaves the loop with the state in which it was raised.
\<close>

partial_function (option) track_loop ::
  "config \<Rightarrow> world \<Rightarrow> json \<Rightarrow> st \<Rightarrow> ((exn + unit) \<times> st) option" where
  "track_loop cfg w export_id s =
     (case get_data_export_status cfg w export_id s of
        (Inl e, s1) \<Rightarrow> Some (Inl e, s1)
      | (Inr status_data, s1) \<Rightarrow>
          (case stage_of status_data of
             Inl e \<Rightarrow> Some (Inl e, s1)
           | Inr state \<Rightarrow>
               (case print [Lit ''['', Clock, Lit ''] Status: '', Str state] s1 of
                  (_, s2) \<Rightarrow>
                    if state = JStr ''FINISHED_SUCCESS'' then
                      Some (print [Lit (CHR 0x0A # ''--- Export COMPLETED SUCCESSFULLY ---'')] s2)
                    else if state \<in> set [JStr ''FINISHED_FAILURE'', JStr ''CANCELLED''] then
                      Some (bind (print [Lit (CHR 0x0A # ''--- Export ''), Str state, Lit '' ---''])
                              (\<lambda>_. print [Dumps status_data]) s2)
                    else if state \<in> set [JStr ''IN_QUEUE'', JStr ''PROCESSING'', JStr ''PENDING''] then
                      (case sleep w 30 s2 of
                         (Inl e, s3) \<Rightarrow> Some (Inl e, s3)
                       | (Inr _, s3) \<Rightarrow> track_loop cfg w export_id s3)
                    else
                      Some (bind (print [Lit ''Unknown state '', Lit [CHR 0x27], Str state,
                                         Lit [CHR 0x27], Lit ''. Stopping tracker.''])
                              (\<lambda>_. print [Dumps status_data]) s2))))"

declare track_loop.simps [code]

text \<open>\<open>except KeyboardInterrupt\<close> catches the interrupt, whatever raised it inside the
  loop; every other exception goes on to the caller.\<close>

definition track_export_until_completion ::
  "config \<Rightarrow> world \<Rightarrow> json \<Rightarrow> st \<Rightarrow> ((exn + unit) \<times> st) option" where
  "track_export_until_completion cfg w export_id s =
     (case bind (print [Lit (CHR 0x0A # ''[Tracker] Tracking status for: ''), Str export_id])
             (\<lambda>_. print [Lit ''Press Ctrl+C to stop tracking (job will continue running in background).''])
             s of
        (_, s1) \<Rightarrow>
          (case track_loop cfg w export_id s1 of
             None \<Rightarrow> None
           | Some (Inl KeyboardInterrupt, s2) \<Rightarrow>
               Some (print [Lit (CHR 0x0A # ''Tracking stopped by user. Job continues in Chronicle.'')] s2)
           | Some r \<Rightarrow> Some r))"

section \<open>Reading a run\<close>

text \<open>The state after a request was sent, and after a sleep of the poll interval began.\<close>

definition sent :: "effect \<Rightarrow> st \<Rightarrow> st" where
  "sent e s = (emit e s)\<lparr>requests := requests s + 1\<rparr>"

definition slept :: "st \<Rightarrow> st" where
  "slept s = (emit (Sleep 30) s)\<lparr>naps := naps s + 1\<rparr>"

text \<open>The effects of one status fetch: the request, and the status line (one observation).\<close>

definition status_url :: "config \<Rightarrow> piece list \<Rightarrow> effect" where
  "status_url cfg full_path = GET ([Lit (API_BASE_URL cfg), Lit ''/''] @ full_path) (TIMEOUT cfg)"

definition status_line :: "json \<Rightarrow> effect" where
  "status_line state = Print [Lit ''['', Clock, Lit ''] Status: '', Str state]"

fun observed :: "effect \<Rightarrow> json list" where
  "observed (Print [Lit a, Clock, Lit b, Str state]) =
     (if a = ''['' \<and> b = ''] Status: '' then [state] else [])"
| "observed _ = []"

definition observations :: "effect list \<Rightarrow> json list" where
  "observations tr = concat (map observed tr)"

text \<open>The three ways in which the tracker reports the end of the job.\<close>

definition success_report :: "effect list" where
  "success_report = [Print [Lit (CHR 0x0A # ''--- Export COMPLETED SUCCESSFULLY ---'')]]"

definition failure_report :: "json \<Rightarrow> json \<Rightarrow> effect list" where
  "failure_report state status_data =
     [Print [Lit (CHR 0x0A # ''--- Export ''), Str state, Lit '' ---''],
      Print [Dumps status_data]]"

definition anomaly_report :: "json \<Rightarrow> json \<Rightarrow> effect list" where
  "anomaly_report state status_data =
     [Print [Lit ''Unknown state '', Lit [CHR 0x27], Str state, Lit [CHR 0x27],
             Lit ''. Stopping tracker.''],
      Print [Dumps status_data]]"

definition stopped_report :: "effect list" where
  "stopped_report =
     [Print [Lit (CHR 0x0A # ''Tracking stopped by user. Job continues in Chronicle.'')]]"

definition tracker_banner :: "json \<Rightarrow> effect list" where
  "tracker_banner export_id =
     [Print [Lit (CHR 0x0A # ''[Tracker] Tracking status for: ''), Str export_id],
      Print [Lit ''Press Ctrl+C to stop tracking (job will continue running in background).'']]"

definition emits :: "effect list \<Rightarrow> st \<Rightarrow> st" where
  "emits es s = s\<lparr>trace := trace s @ es\<rparr>"

text \<open>What the k-th request yields when it is answered with a status that
  \<open>raise_for_status\<close> accepts and a JSON body, and the stage read from it.\<close>

definition status_at :: "world \<Rightarrow> nat \<Rightarrow> json option" where
  "status_at w k =
     (case replies w k of
        Reply r \<Rightarrow>
          (case raise_for_status r of
             Inl _ \<Rightarrow> None
           | Inr _ \<Rightarrow> (case json_of r of Inl _ \<Rightarrow> None | Inr status_data \<Rightarrow> Some status_data))
      | _ \<Rightarrow> None)"

definition stage_at :: "world \<Rightarrow> nat \<Rightarrow> json option" where
  "stage_at w k =
     (case status_at w k of
        None \<Rightarrow> None
      | Some status_data \<Rightarrow> (case stage_of status_data of Inl _ \<Rightarrow> None | Inr state \<Rightarrow> Some state))"

text \<open>The stages of the state machine.\<close>

definition NON_TERMINAL :: "json list" where
  "NON_TERMINAL = [JStr ''IN_QUEUE'', JStr ''PROCESSING'', JStr ''PENDING'']"

definition SUCCESS :: "json list" where
  "SUCCESS = [JStr ''FINISHED_SUCCESS'']"

definition TERMINAL_FAILURE :: "json list" where
  "TERMINAL_FAILURE = [JStr ''FINISHED_FAILURE'', JStr ''CANCELLED'']"

fun is_POST :: "effect \<Rightarrow> bool" where
  "is_POST (POST url payload timeout) = True"
| "is_POST _ = False"

fun is_GET :: "effect \<Rightarrow> bool" where
  "is_GET (GET url timeout) = True"
| "is_GET _ = False"

text \<open>The next \<open>n\<close> polls, from request \<open>k\<close> and sleep \<open>m\<close> on, each find a non-terminal
  stage and sleep through the poll interval.\<close>

fun waits :: "world \<Rightarrow> nat \<Rightarrow> nat \<Rightarrow> nat \<Rightarrow> bool" where
  "waits w k m 0 = True"
| "waits w k m (Suc n) =
     ((case stage_at w k of None \<Rightarrow> False | Some state \<Rightarrow> state \<in> set NON_TERMINAL)
      \<and> \<not> sleep_interrupted w m \<and> waits w (Suc k) (Suc m) n)"

section \<open>The other operations of the client\<close>

text \<open>An environment value as the Python value it is: \<open>None\<close> when the variable is not
  set. The same for an optional command-line argument.\<close>

definition py_value :: "string option \<Rightarrow> json" where
  "py_value v = (case v of None \<Rightarrow> JNull | Some s \<Rightarrow> JStr s)"

text \<open>
  \<open>get_authorized_session\<close>: without a credential file it raises \<open>ValueError\<close>; loading
  the file may fail; every exception is printed and raised again. No request is sent.
\<close>

definition get_authorized_session :: "config \<Rightarrow> world \<Rightarrow> unit io" where
  "get_authorized_session cfg w s =
     (case (if \<not> truthy (py_value (SERVICE_ACCOUNT_FILE cfg)) then (Inl ValueError, s)
            else (if credentials_load w then Inr () else Inl CredentialsError,
                  emit (Load_credentials (fmt_env (SERVICE_ACCOUNT_FILE cfg)) (SCOPES cfg)) s)) of
        (Inl e, s1) \<Rightarrow> (Inl e, emit (Print [Lit ''Authentication Error: '', Exc e]) s1)
      | (Inr x, s1) \<Rightarrow> (Inr x, s1))"

definition fetch_service_account :: "config \<Rightarrow> world \<Rightarrow> json io" where
  "fetch_service_account cfg w =
     bind (print [Lit (CHR 0x0A # ''[Action] Fetching Chronicle Service Account...'')]) (\<lambda>_.
     bind (send w (GET [Lit (API_BASE_URL cfg), Lit ''/'', Lit (INSTANCE_BASE_PATH cfg),
                        Lit ''/dataExports:fetchServiceAccountForDataExport''] (TIMEOUT cfg))) (\<lambda>resp.
     bind (lift (raise_for_status resp)) (\<lambda>_.
     bind (lift (json_of resp)) (\<lambda>data.
     bind (lift (py_get data ''serviceAccountEmail'' JNull)) (\<lambda>first.
     bind (if truthy first then lift (Inr first) else lift (py_get data ''email'' JNull)) (\<lambda>sa_email.
     bind (print [Lit ''Chronicle Service Account: '', Str sa_email]) (\<lambda>_.
     bind (print [Lit ''-> INSTRUCTION: Grant '', Lit [CHR 0x27], Str sa_email, Lit [CHR 0x27],
                  Lit '' the '', Lit [CHR 0x27], Lit ''Storage Object Admin'', Lit [CHR 0x27],
                  Lit '' role on your target bucket.'']) (\<lambda>_.
     lift (Inr sa_email)))))))))"

text \<open>\<open>len(v)\<close> and the items that \<open>for x in v\<close> visits: the elements of a list, the
  characters of a string, the keys of a dictionary.\<close>

fun py_len :: "json \<Rightarrow> exn + nat" where
  "py_len (JStr s) = Inr (length s)"
| "py_len (JArr xs) = Inr (length xs)"
| "py_len (JObj kvs) = Inr (length kvs)"
| "py_len _ = Inl TypeError"

fun py_iter :: "json \<Rightarrow> exn + json list" where
  "py_iter (JStr s) = Inr (map (\<lambda>c. JStr [c]) s)"
| "py_iter (JArr xs) = Inr xs"
| "py_iter (JObj kvs) = Inr (map (\<lambda>kv. JStr (fst kv)) kvs)"
| "py_iter _ = Inl TypeError"

text \<open>\<open>name.split("/")[-1]\<close>: what follows the last slash.\<close>

definition last_segment :: "string \<Rightarrow> string" where
  "last_segment name = rev (takeWhile (\<lambda>c. c \<noteq> CHR ''/'') (rev name))"

text \<open>\<open>format(v, '<20')\<close> is defined for strings and numbers, booleans included; on
  \<open>None\<close>, a list or a dictionary it raises \<open>TypeError\<close>.\<close>

fun py_ljust :: "json \<Rightarrow> nat \<Rightarrow> exn + piece" where
  "py_ljust JNull n = Inl TypeError"
| "py_ljust (JArr xs) n = Inl TypeError"
| "py_ljust (JObj kvs) n = Inl TypeError"
| "py_ljust v n = Inr (Ljust v n)"

text \<open>The line printed for one export; it raises where the entry does not have the
  expected shape.\<close>

definition export_line :: "json \<Rightarrow> exn + piece list" where
  "export_line export =
     (case py_get export ''name'' (JStr ''UNKNOWN'') of
        Inl e \<Rightarrow> Inl e
      | Inr (JStr full_name) \<Rightarrow>
          (case py_get export ''dataExportStatus'' (JObj []) of
             Inl e \<Rightarrow> Inl e
           | Inr status \<Rightarrow>
               (case py_get status ''stage'' (JStr ''UNKNOWN'') of
                  Inl e \<Rightarrow> Inl e
                | Inr stage \<Rightarrow>
                    (case py_get export ''createTime'' (JStr '''') of
                       Inl e \<Rightarrow> Inl e
                     | Inr create_time \<Rightarrow>
                         (case py_ljust stage 20 of
                            Inl e \<Rightarrow> Inl e
                          | Inr stage_col \<Rightarrow>
                              Inr [Lit ''ID: '', Ljust (JStr (last_segment full_name)) 38,
                                   Lit '' | Stage: '', stage_col,
                                   Lit '' | Created: '', Str create_time]))))
      | Inr _ \<Rightarrow> Inl AttributeError)"

primrec print_exports :: "json list \<Rightarrow> unit io" where
  "print_exports [] = lift (Inr ())"
| "print_exports (export # rest) =
     bind (lift (export_line export)) (\<lambda>line.
     bind (print line) (\<lambda>_.
     print_exports rest))"

text \<open>\<open>list_data_exports\<close> has no \<open>return\<close> with a value: on both of its paths the
  caller gets \<open>None\<close>.\<close>

definition list_data_exports :: "config \<Rightarrow> world \<Rightarrow> json io" where
  "list_data_exports cfg w =
     bind (print [Lit (CHR 0x0A # ''[Action] Listing Data Exports...'')]) (\<lambda>_.
     bind (send w (GET [Lit (API_BASE_URL cfg), Lit ''/'', Lit (INSTANCE_BASE_PATH cfg),
                        Lit ''/dataExports''] (TIMEOUT cfg))) (\<lambda>resp.
     bind (lift (raise_for_status resp)) (\<lambda>_.
     bind (lift (json_of resp)) (\<lambda>data.
     bind (lift (py_get data ''dataExports'' (JArr []))) (\<lambda>exports.
     if \<not> truthy exports then
       bind (print [Lit ''No data exports found.'']) (\<lambda>_.
       lift (Inr JNull))
     else
       bind (lift (py_len exports)) (\<lambda>n.
       bind (print [Lit ''Found '', Str (JNum (int n)), Lit ('' export(s):'' @ [CHR 0x0A])]) (\<lambda>_.
       bind (lift (py_iter exports)) (\<lambda>items.
       bind (print_exports items) (\<lambda>_.
       lift (Inr JNull))))))))))"

definition cancel_data_export :: "config \<Rightarrow> world \<Rightarrow> json \<Rightarrow> unit io" where
  "cancel_data_export cfg w export_id =
     bind (lift (full_path_of cfg export_id)) (\<lambda>full_path.
     bind (print [Lit (CHR 0x0A # ''[Action] Cancelling Data Export job: ''), Str export_id,
                  Lit ''...'']) (\<lambda>_.
     bind (send w (POST ([Lit (API_BASE_URL cfg), Lit ''/''] @ full_path @ [Lit '':cancel''])
                     None (TIMEOUT cfg))) (\<lambda>resp.
     bind (lift (raise_for_status resp)) (\<lambda>_.
     bind (print [Lit ''Cancel request issued successfully.'']) (\<lambda>_.
     bind (get_data_export_status cfg w export_id) (\<lambda>_.
     lift (Inr ())))))))"

section \<open>Dates\<close>

text \<open>
  The arithmetic of Python's \<open>datetime\<close>: a date is counted in days from 0001-01-01,
  which is day 1, in the proleptic Gregorian calendar; the last day is 9999-12-31.
\<close>

definition is_leap :: "int \<Rightarrow> bool" where
  "is_leap y = (y mod 4 = 0 \<and> (y mod 100 \<noteq> 0 \<or> y mod 400 = 0))"

definition days_before_year :: "int \<Rightarrow> int" where
  "days_before_year y = (y - 1) * 365 + (y - 1) div 4 - (y - 1) div 100 + (y - 1) div 400"

definition DAYS_IN_MONTH :: "int list" where
  "DAYS_IN_MONTH = [31, 28, 31, 30, 31, 30, 31, 31, 30, 31, 30, 31]"

definition DAYS_BEFORE_MONTH :: "int list" where
  "DAYS_BEFORE_MONTH = [0, 31, 59, 90, 120, 151, 181, 212, 243, 273, 304, 334]"

definition days_in_month :: "int \<Rightarrow> int \<Rightarrow> int" where
  "days_in_month y m = (if m = 2 \<and> is_leap y then 29 else DAYS_IN_MONTH ! nat (m - 1))"

definition days_before_month :: "int \<Rightarrow> int \<Rightarrow> int" where
  "days_before_month y m =
     DAYS_BEFORE_MONTH ! nat (m - 1) + (if m > 2 \<and> is_leap y then 1 else 0)"

definition ymd2ord :: "int \<Rightarrow> int \<Rightarrow> int \<Rightarrow> int" where
  "ymd2ord y m d = days_before_year y + days_before_month y m + d"

definition MAXORDINAL :: int where
  "MAXORDINAL = 3652059"

text \<open>The end of \<open>_ord2ymd\<close>: month and day of the n-th day of a year, counted from 0:
  an estimate of the month that is never too small, corrected if it is too large.\<close>

definition month_day :: "bool \<Rightarrow> int \<Rightarrow> int \<times> int" where
  "month_day leapyear n =
     (let m = (n + 50) div 32;
          preceding = DAYS_BEFORE_MONTH ! nat (m - 1) + (if m > 2 \<and> leapyear then 1 else 0)
      in if preceding > n
           then (m - 1,
                 n - (preceding - (DAYS_IN_MONTH ! nat (m - 2)
                                    + (if m - 1 = 2 \<and> leapyear then 1 else 0))) + 1)
         else (m, n - preceding + 1))"

definition ord2ymd :: "int \<Rightarrow> int \<times> int \<times> int" where
  "ord2ymd ordinal =
     (let n = ordinal - 1;
          n400 = n div 146097; n = n mod 146097;
          n100 = n div 36524; n = n mod 36524;
          n4 = n div 1461; n = n mod 1461;
          n1 = n div 365; n = n mod 365;
          y = n400 * 400 + 1 + n100 * 100 + n4 * 4 + n1
      in if n1 = 4 \<or> n100 = 4 then (y - 1, 12, 31)
         else (case month_day (n1 = 3 \<and> (n4 \<noteq> 24 \<or> n100 = 3)) n of (m, d) \<Rightarrow> (y, m, d)))"

definition valid_datetime :: "datetime \<Rightarrow> bool" where
  "valid_datetime t =
     (1 \<le> year t \<and> year t \<le> 9999 \<and> 1 \<le> month t \<and> month t \<le> 12
      \<and> 1 \<le> day t \<and> day t \<le> days_in_month (year t) (month t)
      \<and> 0 \<le> hour t \<and> hour t < 24 \<and> 0 \<le> minute t \<and> minute t < 60
      \<and> 0 \<le> second t \<and> second t < 60 \<and> 0 \<le> microsecond t \<and> microsecond t < 1000000)"

definition toordinal :: "datetime \<Rightarrow> int" where
  "toordinal t = ymd2ord (year t) (month t) (day t)"

text \<open>\<open>timedelta(days=d)\<close> and \<open>t - delta\<close> for a delta of whole days: the time of day
  stays, the date moves, and both raise \<open>OverflowError\<close> outside their range.\<close>

definition timedelta :: "int \<Rightarrow> exn + int" where
  "timedelta days = (if \<bar>days\<bar> > 999999999 then Inl OverflowError else Inr days)"

definition minus_days :: "datetime \<Rightarrow> int \<Rightarrow> exn + datetime" where
  "minus_days t days =
     (let n = toordinal t - days
      in if 0 < n \<and> n \<le> MAXORDINAL
           then (case ord2ymd n of (y, m, d) \<Rightarrow> Inr (t\<lparr>year := y, month := m, day := d\<rparr>))
         else Inl OverflowError)"

text \<open>
  \<open>strftime("%Y-%m-%dT%H:%M:%SZ")\<close>: month, day, hour, minute and second in two digits.
  \<open>%Y\<close> is the year in decimal: four digits from the year 1000 on; below, the C library
  decides whether zeros are put in front (glibc puts none, which is what is written here).
\<close>

definition digit :: "int \<Rightarrow> char" where
  "digit n = ''0123456789'' ! nat n"

primrec pad :: "nat \<Rightarrow> int \<Rightarrow> string" where
  "pad 0 n = []"
| "pad (Suc k) n = pad k (n div 10) @ [digit (n mod 10)]"

fun decimal :: "nat \<Rightarrow> string" where
  "decimal n = (if n < 10 then [digit (int n)] else decimal (n div 10) @ [digit (int (n mod 10))])"

declare decimal.simps [simp del]

definition strftime :: "datetime \<Rightarrow> string" where
  "strftime t =
     decimal (nat (year t)) @ ''-'' @ pad 2 (month t) @ ''-'' @ pad 2 (day t) @ ''T''
       @ pad 2 (hour t) @ '':'' @ pad 2 (minute t) @ '':'' @ pad 2 (second t) @ ''Z''"

section \<open>Creating an export\<close>

definition log_type_path :: "config \<Rightarrow> string \<Rightarrow> string" where
  "log_type_path cfg lt =
     ''projects/'' @ fmt_env (PROJECT_ID cfg) @ ''/locations/'' @ fmt_env (LOCATION cfg)
       @ ''/instances/'' @ fmt_env (INSTANCE_ID cfg) @ ''/logTypes/'' @ lt"

text \<open>\<open>if log_types\<close>: neither \<open>None\<close> nor the empty list.\<close>

definition given :: "string list option \<Rightarrow> bool" where
  "given log_types = (case log_types of None \<Rightarrow> False | Some lts \<Rightarrow> lts \<noteq> [])"

definition time_range :: "world \<Rightarrow> int \<Rightarrow> exn + string \<times> string" where
  "time_range w days_back =
     (let end_time_dt = utc_now w
      in case timedelta days_back of
           Inl e \<Rightarrow> Inl e
         | Inr delta \<Rightarrow>
             (case minus_days end_time_dt delta of
                Inl e \<Rightarrow> Inl e
              | Inr start_time_dt \<Rightarrow> Inr (strftime start_time_dt, strftime end_time_dt)))"

definition creation_payload ::
  "config \<Rightarrow> string \<Rightarrow> string \<Rightarrow> string list option \<Rightarrow> (string \<times> json) list" where
  "creation_payload cfg start_time end_time log_types =
     [(''startTime'', JStr start_time),
      (''endTime'', JStr end_time),
      (''gcsBucket'', py_value (GCS_BUCKET cfg))]
     @ (case log_types of
          None \<Rightarrow> []
        | Some lts \<Rightarrow>
            if lts \<noteq> []
              then [(''includeLogTypes'', JArr (map (\<lambda>lt. JStr (log_type_path cfg lt)) lts))]
            else [])"

definition create_data_export ::
  "config \<Rightarrow> world \<Rightarrow> int \<Rightarrow> string list option \<Rightarrow> json io" where
  "create_data_export cfg w days_back log_types =
     bind (lift (time_range w days_back)) (\<lambda>(start_time, end_time).
     let payload = creation_payload cfg start_time end_time log_types in
     bind (print [Lit (CHR 0x0A # ''[Action] Creating Data Export Job...'')]) (\<lambda>_.
     bind (print [Lit ''Target: '', Str (py_value (GCS_BUCKET cfg)), Lit '' | Range: Last '',
                  Str (JNum days_back), Lit '' days'']) (\<lambda>_.
     bind (if given log_types
             then print [Lit ''Log Types: '',
                         Str (JArr (map JStr (case log_types of None \<Rightarrow> [] | Some lts \<Rightarrow> lts)))]
           else lift (Inr ())) (\<lambda>_.
     bind (send w (POST [Lit (API_BASE_URL cfg), Lit ''/'', Lit (INSTANCE_BASE_PATH cfg),
                         Lit ''/dataExports''] (Some (JObj payload)) (TIMEOUT cfg))) (\<lambda>resp.
     bind (lift (raise_for_status resp)) (\<lambda>_.
     bind (lift (json_of resp)) (\<lambda>export_data.
     bind (lift (py_get export_data ''name'' JNull)) (\<lambda>export_id.
     bind (print [Lit ''Success. Job Created: '', Str export_id]) (\<lambda>_.
     lift (Inr export_id))))))))))"

section \<open>The command line\<close>

record args =
  arg_create :: bool
  arg_track :: "string option"
  arg_fetch_sa :: bool
  arg_list :: bool
  arg_cancel :: "string option"
  arg_days :: int
  arg_log_types :: "string list option"

text \<open>The two \<open>except\<close> clauses of \<open>main\<close>. \<open>KeyboardInterrupt\<close> is not an
  \<open>Exception\<close> and passes through.\<close>

definition report_error :: "exn \<Rightarrow> unit io" where
  "report_error e =
     (case e of
        HTTPError r \<Rightarrow>
          bind (print [Lit (CHR 0x0A # ''API Error: ''), Exc e]) (\<lambda>_.
          case resp_json r of
            Some err_json \<Rightarrow> print [Lit ''Details: '', Dumps err_json]
          | None \<Rightarrow> print [Lit ''API Response: '', Lit (resp_text r)])
      | KeyboardInterrupt \<Rightarrow> lift (Inl KeyboardInterrupt)
      | _ \<Rightarrow> print [Lit (CHR 0x0A # ''Error: ''), Exc e])"

definition run_action ::
  "config \<Rightarrow> args \<Rightarrow> world \<Rightarrow> st \<Rightarrow> ((exn + unit) \<times> st) option" where
  "run_action cfg a w s =
     (case get_authorized_session cfg w s of
        (Inl e, s1) \<Rightarrow> Some (Inl e, s1)
      | (Inr session, s1) \<Rightarrow>
          if arg_fetch_sa a then
            Some (bind (fetch_service_account cfg w) (\<lambda>_. lift (Inr ())) s1)
          else if arg_list a then
            Some (bind (list_data_exports cfg w) (\<lambda>_. lift (Inr ())) s1)
          else if truthy (py_value (arg_cancel a)) then
            Some (cancel_data_export cfg w (py_value (arg_cancel a)) s1)
          else if truthy (py_value (arg_track a)) then
            track_export_until_completion cfg w (py_value (arg_track a)) s1
          else
            (case create_data_export cfg w (arg_days a) (arg_log_types a) s1 of
               (Inl e, s2) \<Rightarrow> Some (Inl e, s2)
             | (Inr new_id, s2) \<Rightarrow> track_export_until_completion cfg w new_id s2))"

definition main :: "config \<Rightarrow> args \<Rightarrow> world \<Rightarrow> st \<Rightarrow> ((exn + unit) \<times> st) option" where
  "main cfg a w s =
     (if \<not> (truthy (py_value (PROJECT_ID cfg)) \<and> truthy (py_value (INSTANCE_ID cfg))
             \<and> truthy (py_value (GCS_BUCKET cfg)))
        then Some (print [Lit ''Error: Missing critical .env configuration.''] s)
      else
        (case run_action cfg a w s of
           None \<Rightarrow> None
         | Some (Inl e, s1) \<Rightarrow> Some (report_error e s1)
         | Some (Inr x, s1) \<Rightarrow> Some (Inr (), s1)))"

section \<open>The text of a JSON value\<close>








text \<open>The requests of the two read-only operations.\<close>

definition sa_url :: "config \<Rightarrow> effect" where
  "sa_url cfg = GET [Lit (API_BASE_URL cfg), Lit ''/'', Lit (INSTANCE_BASE_PATH cfg),
                     Lit ''/dataExports:fetchServiceAccountForDataExport''] (TIMEOUT cfg)"

definition list_url :: "config \<Rightarrow> effect" where
  "list_url cfg = GET [Lit (API_BASE_URL cfg), Lit ''/'', Lit (INSTANCE_BASE_PATH cfg),
                       Lit ''/dataExports''] (TIMEOUT cfg)"

text \<open>The bodies of the POST requests of a run, in order.\<close>

fun posted_body :: "effect \<Rightarrow> json option list" where
  "posted_body (POST url payload timeout) = [payload]"
| "posted_body _ = []"

definition posted :: "effect list \<Rightarrow> json option list" where
  "posted tr = concat (map posted_body tr)"





section \<open>Reading a timestamp\<close>

text \<open>
  The format \<open>YYYY-MM-DDTHH:MM:SSZ\<close>, read back: four digits, two, two, \<open>T\<close>, two, two,
  two, \<open>Z\<close>, with the separators in their places. A string in the format names one
  second of the timeline; \<open>instant\<close> counts the seconds from the start of 0001-01-01.
\<close>

definition digit_value :: "char \<Rightarrow> int option" where
  "digit_value c = (if c \<in> set ''0123456789'' then Some (int (of_char c) - 48) else None)"

primrec number_from :: "int \<Rightarrow> string \<Rightarrow> int option" where
  "number_from acc [] = Some acc"
| "number_from acc (c # cs) =
     (case digit_value c of None \<Rightarrow> None | Some v \<Rightarrow> number_from (10 * acc + v) cs)"

definition number :: "string \<Rightarrow> int option" where
  "number cs = (if cs = [] then None else number_from 0 cs)"

definition parse_timestamp :: "string \<Rightarrow> datetime option" where
  "parse_timestamp s =
     (if length s = 20 \<and> s ! 4 = CHR ''-'' \<and> s ! 7 = CHR ''-'' \<and> s ! 10 = CHR ''T''
         \<and> s ! 13 = CHR '':'' \<and> s ! 16 = CHR '':'' \<and> s ! 19 = CHR ''Z''
        then (case (number (take 4 s), number (take 2 (drop 5 s)), number (take 2 (drop 8 s)),
                    number (take 2 (drop 11 s)), number (take 2 (drop 14 s)),
                    number (take 2 (drop 17 s))) of
                (Some y, Some m, Some d, Some h, Some mi, Some sec) \<Rightarrow>
                  Some \<lparr>year = y, month = m, day = d, hour = h, minute = mi, second = sec,
                        microsecond = 0\<rparr>
              | _ \<Rightarrow> None)
      else None)"

definition instant :: "datetime \<Rightarrow> int" where
  "instant t = (toordinal t - 1) * 86400 + hour t * 3600 + minute t * 60 + second t"

section \<open>Example inputs\<close>

definition example_config :: config where
  "example_config =
     \<lparr>SERVICE_ACCOUNT_FILE = Some ''sa.json'', SCOPES = Some ''scope'',
      PROJECT_ID = Some ''my-project'', LOCATION = Some ''us'',
      INSTANCE_ID = Some ''my-instance'', GCS_BUCKET = Some ''my-bucket'',
      SECOPS_API_BASE_URL = None, TIMEOUT = 60\<rparr>"

definition start :: st where
  "start = \<lparr>requests = 0, naps = 0, trace = []\<rparr>"

definition status_payload :: "string \<Rightarrow> json" where
  "status_payload stage =
     JObj [(''name'', JStr ''projects/p/locations/us/instances/i/dataExports/abc''),
           (''dataExportStatus'', JObj [(''stage'', JStr stage)])]"

definition ok_reply :: "json \<Rightarrow> net" where
  "ok_reply j = Reply \<lparr>resp_status = 200, resp_text = [], resp_json = Some j\<rparr>"

definition scripted :: "net list \<Rightarrow> nat \<Rightarrow> net" where
  "scripted rs k = (if k < length rs then rs ! k else Failure)"

definition stages :: "string list \<Rightarrow> nat \<Rightarrow> net" where
  "stages xs k = (if k < length xs then ok_reply (status_payload (xs ! k)) else Failure)"

definition example_now :: datetime where
  "example_now =
     \<lparr>year = 2024, month = 3, day = 1, hour = 12, minute = 30, second = 45, microsecond = 0\<rparr>"

definition example_world :: "(nat \<Rightarrow> net) \<Rightarrow> world" where
  "example_world answers =
     \<lparr>credentials_load = True, utc_now = example_now, replies = answers,
      sleep_interrupted = (\<lambda>k. False)\<rparr>"

definition example_path :: "piece list" where
  "example_path =
     [Lit ''v1alpha/projects/my-project/locations/us/instances/my-instance/dataExports/abc'']"

definition interrupting_world :: "(nat \<Rightarrow> net) \<Rightarrow> nat \<Rightarrow> world" where
  "interrupting_world answers k = (example_world answers)\<lparr>sleep_interrupted := (\<lambda>i. i = k)\<rparr>"

definition example_exports :: "json list" where
  "example_exports =
     [JObj [(''name'', JStr ''projects/p/locations/us/instances/i/dataExports/second''),
            (''dataExportStatus'', JObj [(''stage'', JStr ''PROCESSING'')]),
            (''createTime'', JStr ''2024-03-01T10:00:00Z'')],
      JObj [(''name'', JStr ''projects/p/locations/us/instances/i/dataExports/first''),
            (''dataExportStatus'', JObj [(''stage'', JStr ''FINISHED_SUCCESS'')]),
            (''createTime'', JStr ''2024-02-01T10:00:00Z'')]]"

definition example_lines :: "piece list list" where
  "example_lines =
     [[Lit ''ID: '', Ljust (JStr ''second'') 38, Lit '' | Stage: '',
       Ljust (JStr ''PROCESSING'') 20, Lit '' | Created: '', Str (JStr ''2024-03-01T10:00:00Z'')],
      [Lit ''ID: '', Ljust (JStr ''first'') 38, Lit '' | Stage: '',
       Ljust (JStr ''FINISHED_SUCCESS'') 20, Lit '' | Created: '',
       Str (JStr ''2024-02-01T10:00:00Z'')]]"





section \<open>Properties of the normaliser\<close>

lemma base_path_has_projects: "sublist ''projects/'' (INSTANCE_BASE_PATH cfg @ rest)"
proof -
  have "INSTANCE_BASE_PATH cfg @ rest =
          ''v1alpha/'' @ ''projects/'' @ (fmt_env (PROJECT_ID cfg) @ ''/locations/''
            @ fmt_env (LOCATION cfg) @ ''/instances/'' @ fmt_env (INSTANCE_ID cfg) @ rest)"
    by (simp add: INSTANCE_BASE_PATH_def)
  then show ?thesis
    by (simp only: sublist_appendI)
qed

lemma base_path_not_prefixed: "\<not> prefix ''projects/'' (INSTANCE_BASE_PATH cfg @ rest)"
  by (simp add: INSTANCE_BASE_PATH_def)

lemma versioned_has_projects:
  assumes "prefix ''projects/'' p"
  shows "sublist ''projects/'' (''v1alpha/'' @ p)"
proof -
  from assms obtain r where "p = ''projects/'' @ r"
    by (auto simp: prefix_def)
  then have "''v1alpha/'' @ p = ''v1alpha/'' @ ''projects/'' @ r"
    by simp
  then show ?thesis
    by (simp only: sublist_appendI)
qed

lemma versioned_not_prefixed: "\<not> prefix ''projects/'' (''v1alpha/'' @ p)"
  by simp

lemma normalize_id_fixed:
  "sublist ''projects/'' v \<Longrightarrow> \<not> prefix ''projects/'' v \<Longrightarrow> normalize_id cfg v = v"
  by (simp add: normalize_id_def)

lemma normalize_id_result_versioned:
  "sublist ''projects/'' (normalize_id cfg s) \<and> \<not> prefix ''projects/'' (normalize_id cfg s)"
proof (cases "sublist ''projects/'' s")
  case False
  then show ?thesis
    using base_path_has_projects [of cfg "''/dataExports/'' @ s"]
          base_path_not_prefixed [of cfg "''/dataExports/'' @ s"]
    by (simp add: normalize_id_def)
next
  case True
  show ?thesis
  proof (cases "prefix ''projects/'' s")
    case True
    with \<open>sublist ''projects/'' s\<close> show ?thesis
      using versioned_has_projects [of s] versioned_not_prefixed [of s]
      by (simp add: normalize_id_def)
  next
    case False
    with \<open>sublist ''projects/'' s\<close> show ?thesis
      by (simp add: normalize_id_def)
  qed
qed

text \<open>
  C2. The normaliser is a function of the raw id and the instance base path alone, defined
  on every string, with three ordered cases: an id without the substring \<open>projects/\<close>
  is appended to the instance base path and \<open>/dataExports/\<close>; an id that starts with
  \<open>projects/\<close> gets the prefix \<open>v1alpha/\<close>; any other id is returned unchanged.
\<close>

theorem normalize_id_three_cases:
  "(\<not> sublist ''projects/'' s \<longrightarrow>
      normalize_id cfg s = INSTANCE_BASE_PATH cfg @ ''/dataExports/'' @ s)
   \<and> (prefix ''projects/'' s \<longrightarrow> normalize_id cfg s = ''v1alpha/'' @ s)
   \<and> (sublist ''projects/'' s \<and> \<not> prefix ''projects/'' s \<longrightarrow> normalize_id cfg s = s)
   \<and> (INSTANCE_BASE_PATH cfg = INSTANCE_BASE_PATH cfg' \<longrightarrow>
        normalize_id cfg s = normalize_id cfg' s)"
  by (auto simp: normalize_id_def)

theorem normalize_id_three_cases_witness:
  "normalize_id example_config ''f0015a77''
     = ''v1alpha/projects/my-project/locations/us/instances/my-instance/dataExports/f0015a77''
   \<and> normalize_id example_config ''projects/p/dataExports/abc''
     = ''v1alpha/projects/p/dataExports/abc''
   \<and> normalize_id example_config ''q?x=projects/abc'' = ''q?x=projects/abc''"
  using normalize_id_three_cases [of "''f0015a77''" example_config example_config]
        normalize_id_three_cases [of "''projects/p/dataExports/abc''" example_config example_config]
        normalize_id_three_cases [of "''q?x=projects/abc''" example_config example_config]
  by (simp add: example_config_def INSTANCE_BASE_PATH_def fmt_env_def sublist_code)

text \<open>
  C6. An id that contains \<open>projects/\<close> without starting with it is a fixed point of
  the normaliser, and normalising twice is the same as normalising once; the second
  holds for every string, because each of the three cases produces such a fixed point.
\<close>

theorem normalize_id_idempotent:
  "(sublist ''projects/'' v \<and> \<not> prefix ''projects/'' v \<longrightarrow>
      normalize_id cfg v = v \<and> normalize_id cfg (normalize_id cfg v) = normalize_id cfg v)
   \<and> normalize_id cfg (normalize_id cfg s) = normalize_id cfg s"
proof -
  have twice: "normalize_id cfg (normalize_id cfg t) = normalize_id cfg t" for t
    using normalize_id_result_versioned [of cfg t] by (simp add: normalize_id_fixed)
  show ?thesis
    using twice by (simp add: normalize_id_fixed)
qed

theorem normalize_id_idempotent_witness:
  "normalize_id example_config ''v1alpha/projects/p/dataExports/abc''
     = ''v1alpha/projects/p/dataExports/abc''
   \<and> normalize_id example_config (normalize_id example_config ''v1alpha/projects/p/dataExports/abc'')
     = normalize_id example_config ''v1alpha/projects/p/dataExports/abc''"
  using normalize_id_idempotent [of "''v1alpha/projects/p/dataExports/abc''" example_config]
  by (simp add: sublist_code)

section \<open>Properties of the tracker\<close>

lemma get_status_fetched:
  assumes "full_path_of cfg export_id = Inr full_path"
    and "status_at w (requests s) = Some status_data"
  shows "get_data_export_status cfg w export_id s
           = (Inr status_data, sent (status_url cfg full_path) s)"
  using assms
  by (auto simp: get_data_export_status_def bind_def lift_def send_def status_at_def sent_def
        status_url_def Let_def split: net.splits sum.splits)

lemma get_status_interrupted:
  assumes "full_path_of cfg export_id = Inr full_path"
    and "replies w (requests s) = Interrupt"
  shows "get_data_export_status cfg w export_id s
           = (Inl KeyboardInterrupt, sent (status_url cfg full_path) s)"
  using assms
  by (simp add: get_data_export_status_def bind_def lift_def send_def sent_def status_url_def)

lemma get_status_shape:
  "get_data_export_status cfg w export_id s = (r, s1) \<Longrightarrow>
     (\<exists>e. full_path_of cfg export_id = Inl e \<and> r = Inl e \<and> s1 = s)
     \<or> (\<exists>full_path. full_path_of cfg export_id = Inr full_path
            \<and> s1 = sent (status_url cfg full_path) s)"
  by (auto simp: get_data_export_status_def bind_def lift_def send_def sent_def status_url_def
        Let_def split: sum.splits net.splits)

lemma track_loop_success:
  assumes "get_data_export_status cfg w export_id s = (Inr status_data, s1)"
    and "stage_of status_data = Inr state"
    and "state \<in> set SUCCESS"
  shows "track_loop cfg w export_id s = Some (Inr (), emits (status_line state # success_report) s1)"
  using assms
  by (subst track_loop.simps)
     (simp add: print_def status_line_def emit_def emits_def success_report_def SUCCESS_def)

lemma track_loop_failure:
  assumes "get_data_export_status cfg w export_id s = (Inr status_data, s1)"
    and "stage_of status_data = Inr state"
    and "state \<in> set TERMINAL_FAILURE"
  shows "track_loop cfg w export_id s
           = Some (Inr (), emits (status_line state # failure_report state status_data) s1)"
  using assms
  by (subst track_loop.simps)
     (auto simp: print_def status_line_def bind_def emit_def emits_def failure_report_def
        TERMINAL_FAILURE_def)

lemma track_loop_unknown:
  assumes "get_data_export_status cfg w export_id s = (Inr status_data, s1)"
    and "stage_of status_data = Inr state"
    and "state \<notin> set (SUCCESS @ TERMINAL_FAILURE @ NON_TERMINAL)"
  shows "track_loop cfg w export_id s
           = Some (Inr (), emits (status_line state # anomaly_report state status_data) s1)"
  using assms
  by (subst track_loop.simps)
     (auto simp: print_def status_line_def bind_def emit_def emits_def anomaly_report_def
        TERMINAL_FAILURE_def SUCCESS_def NON_TERMINAL_def)

lemma track_loop_wait:
  assumes "get_data_export_status cfg w export_id s = (Inr status_data, s1)"
    and "stage_of status_data = Inr state"
    and "state \<in> set NON_TERMINAL"
  shows "track_loop cfg w export_id s
           = (if sleep_interrupted w (naps s1)
                then Some (Inl KeyboardInterrupt, slept (emit (status_line state) s1))
              else track_loop cfg w export_id (slept (emit (status_line state) s1)))"
  using assms
  by (subst track_loop.simps)
     (auto simp: print_def status_line_def sleep_def slept_def emit_def Let_def NON_TERMINAL_def)

lemma stage_atD:
  "stage_at w k = Some state \<Longrightarrow> \<exists>status_data. status_at w k = Some status_data \<and> stage_of status_data = Inr state"
  by (auto simp: stage_at_def split: option.splits sum.splits)

lemma get_status_posts:
  "get_data_export_status cfg w export_id s = (r, s1) \<Longrightarrow>
     filter is_POST (trace s1) = filter is_POST (trace s)"
  by (drule get_status_shape) (auto simp: sent_def emit_def status_url_def)

lemma track_loop_posts:
  assumes "track_loop cfg w export_id s = Some y"
  shows "filter is_POST (trace (snd y)) = filter is_POST (trace s)"
  using assms
proof (induction rule: track_loop.raw_induct [rotated 1, consumes 1])
  case (1 track_loop cfg w export_id s y)
  show ?case
  proof (cases "get_data_export_status cfg w export_id s")
    case (Pair r s1)
    note posts1 = get_status_posts [OF Pair]
    show ?thesis
    proof (cases r)
      case (Inl e)
      with 1(2) Pair posts1 show ?thesis by auto
    next
      case (Inr status_data)
      show ?thesis
      proof (cases "stage_of status_data")
        case (Inl e)
        with 1(2) Pair Inr posts1 show ?thesis by auto
      next
        case stage: (Inr state)
        let ?s2 = "emit (status_line state) s1"
        have posts2: "filter is_POST (trace ?s2) = filter is_POST (trace s)"
          using posts1 by (simp add: emit_def status_line_def)
        consider (a) "state = JStr ''FINISHED_SUCCESS''"
          | (b) "state \<noteq> JStr ''FINISHED_SUCCESS''" "state \<in> set TERMINAL_FAILURE"
          | (c) "state \<in> set NON_TERMINAL"
          | (d) "state \<notin> set (SUCCESS @ TERMINAL_FAILURE @ NON_TERMINAL)"
          by (auto simp: SUCCESS_def TERMINAL_FAILURE_def NON_TERMINAL_def)
        then show ?thesis
        proof cases
          case a
          with 1(2) Pair Inr stage posts1 show ?thesis
            by (auto simp: print_def emit_def status_line_def)
        next
          case b
          with 1(2) Pair Inr stage posts1 show ?thesis
            by (auto simp: print_def emit_def bind_def TERMINAL_FAILURE_def)
        next
          case d
          with 1(2) Pair Inr stage posts1 show ?thesis
            by (auto simp: print_def emit_def bind_def TERMINAL_FAILURE_def
                  SUCCESS_def NON_TERMINAL_def)
        next
          case c
          have slept_posts: "filter is_POST (trace (slept ?s2)) = filter is_POST (trace s)"
            using posts2 by (simp add: slept_def emit_def status_line_def)
          show ?thesis
          proof (cases "sleep_interrupted w (naps s1)")
            case True
            with c 1(2) Pair Inr stage posts1 show ?thesis
              by (auto simp: print_def emit_def sleep_def Let_def NON_TERMINAL_def)
          next
            case False
            with c 1(2) Pair Inr stage
            have "track_loop cfg w export_id (slept ?s2) = Some y"
              by (auto simp: print_def sleep_def Let_def NON_TERMINAL_def slept_def emit_def
                    status_line_def)
            from 1(1) [OF this] slept_posts show ?thesis by simp
          qed
        qed
      qed
    qed
  qed
qed

lemma tracker_posts:
  assumes "track_export_until_completion cfg w export_id s = Some (r, s')"
  shows "filter is_POST (trace s') = filter is_POST (trace s)"
proof -
  let ?s1 = "emits (tracker_banner export_id) s"
  from assms obtain y where loop: "track_loop cfg w export_id ?s1 = Some y"
    and res: "s' = snd y \<or> s' = emits stopped_report (snd y)"
    by (auto simp: track_export_until_completion_def bind_def print_def emit_def emits_def
          tracker_banner_def stopped_report_def split: option.splits sum.splits exn.splits)
  from track_loop_posts [OF loop]
  have "filter is_POST (trace (snd y)) = filter is_POST (trace s)"
    by (simp add: emits_def tracker_banner_def)
  with res show ?thesis
    by (auto simp: emits_def stopped_report_def)
qed

lemma track_loop_after_waits:
  assumes "full_path_of cfg export_id = Inr full_path"
    and "waits w (requests s) (naps s) n"
  shows "\<exists>s2. track_loop cfg w export_id s = track_loop cfg w export_id s2
           \<and> requests s2 = requests s + n \<and> naps s2 = naps s + n
           \<and> filter is_POST (trace s2) = filter is_POST (trace s)"
  using assms(2)
proof (induction n arbitrary: s)
  case 0
  then show ?case by auto
next
  case (Suc n)
  from Suc.prems obtain state where st: "stage_at w (requests s) = Some state"
    and nt: "state \<in> set NON_TERMINAL" and awake: "\<not> sleep_interrupted w (naps s)"
    and rest: "waits w (Suc (requests s)) (Suc (naps s)) n"
    by (auto split: option.splits)
  from stage_atD [OF st] obtain status_data
    where sd: "status_at w (requests s) = Some status_data" "stage_of status_data = Inr state"
    by blast
  let ?s1 = "sent (status_url cfg full_path) s"
  let ?s3 = "slept (emit (status_line state) ?s1)"
  have fetch: "get_data_export_status cfg w export_id s = (Inr status_data, ?s1)"
    using get_status_fetched [OF assms(1) sd(1)] .
  have step: "track_loop cfg w export_id s = track_loop cfg w export_id ?s3"
    using track_loop_wait [OF fetch sd(2) nt] awake by (simp add: sent_def emit_def)
  have counters: "requests ?s3 = Suc (requests s)" "naps ?s3 = Suc (naps s)"
    by (simp_all add: slept_def sent_def emit_def)
  have posts: "filter is_POST (trace ?s3) = filter is_POST (trace s)"
    by (simp add: slept_def sent_def emit_def status_line_def status_url_def)
  from rest have "waits w (requests ?s3) (naps ?s3) n"
    by (simp only: counters)
  from Suc.IH [OF this] obtain s2
    where "track_loop cfg w export_id ?s3 = track_loop cfg w export_id s2"
      "requests s2 = requests ?s3 + n" "naps s2 = naps ?s3 + n"
      "filter is_POST (trace s2) = filter is_POST (trace ?s3)"
    by blast
  with step counters posts show ?case
    by (intro exI [of _ s2]) simp
qed

lemma observations_append: "observations (xs @ ys) = observations xs @ observations ys"
  by (simp add: observations_def)

text \<open>
  C1. One pass of the polling loop, for the stage it reads from the fetched status:
  \<open>FINISHED_SUCCESS\<close> ends the loop with the success report after this one observation;
  \<open>FINISHED_FAILURE\<close> and \<open>CANCELLED\<close> end it with the failure report and the dump of
  the whole status payload; a stage outside the known values (the three non-terminal
  ones, the two failures and the success) ends it with the anomaly report and the dump of
  the payload, no request being sent after the one that was answered; \<open>IN_QUEUE\<close>,
  \<open>PROCESSING\<close> and \<open>PENDING\<close> make it sleep 30 seconds and go round again, the next
  effect being another status request. For answers \<open>PROCESSING\<close>, \<open>PROCESSING\<close>,
  \<open>FINISHED_SUCCESS\<close> the tracker returns, having made exactly three observations and
  ending with the success report.
\<close>

theorem poller_state_machine:
  "(get_data_export_status cfg w export_id s = (Inr status_data, s1)
      \<and> stage_of status_data = Inr state \<longrightarrow>
      (state \<in> set SUCCESS \<longrightarrow>
         track_loop cfg w export_id s
           = Some (Inr (), emits (status_line state # success_report) s1))
      \<and> (state \<in> set TERMINAL_FAILURE \<longrightarrow>
         track_loop cfg w export_id s
           = Some (Inr (), emits (status_line state # failure_report state status_data) s1))
      \<and> (state \<notin> set (SUCCESS @ TERMINAL_FAILURE @ NON_TERMINAL) \<longrightarrow>
         track_loop cfg w export_id s
           = Some (Inr (), emits (status_line state # anomaly_report state status_data) s1))
      \<and> (state \<in> set NON_TERMINAL \<and> \<not> sleep_interrupted w (naps s1) \<longrightarrow>
         track_loop cfg w export_id s
           = track_loop cfg w export_id (slept (emit (status_line state) s1))
         \<and> (\<exists>full_path.
               snd (get_data_export_status cfg w export_id (slept (emit (status_line state) s1)))
                 = sent (status_url cfg full_path) (slept (emit (status_line state) s1)))))
   \<and> (full_path_of cfg export_id = Inr full_path
        \<and> stage_at w (requests s) = Some (JStr ''PROCESSING'')
        \<and> stage_at w (requests s + 1) = Some (JStr ''PROCESSING'')
        \<and> stage_at w (requests s + 2) = Some (JStr ''FINISHED_SUCCESS'')
        \<and> \<not> sleep_interrupted w (naps s) \<and> \<not> sleep_interrupted w (naps s + 1) \<longrightarrow>
        (\<exists>s'. track_export_until_completion cfg w export_id s = Some (Inr (), s')
           \<and> trace s' = trace s @ tracker_banner export_id
                @ [status_url cfg full_path, status_line (JStr ''PROCESSING''), Sleep 30,
                   status_url cfg full_path, status_line (JStr ''PROCESSING''), Sleep 30,
                   status_url cfg full_path, status_line (JStr ''FINISHED_SUCCESS'')]
                @ success_report
           \<and> observations (trace s')
               = observations (trace s)
                  @ [JStr ''PROCESSING'', JStr ''PROCESSING'', JStr ''FINISHED_SUCCESS'']
           \<and> requests s' = requests s + 3))"
proof (intro conjI impI)
  assume h: "get_data_export_status cfg w export_id s = (Inr status_data, s1)
      \<and> stage_of status_data = Inr state"
  then have fetch: "get_data_export_status cfg w export_id s = (Inr status_data, s1)"
    and stage: "stage_of status_data = Inr state"
    by simp_all
  {
    assume "state \<in> set SUCCESS"
    then show "track_loop cfg w export_id s
           = Some (Inr (), emits (status_line state # success_report) s1)"
      by (rule track_loop_success [OF fetch stage])
  }
  {
    assume "state \<in> set TERMINAL_FAILURE"
    then show "track_loop cfg w export_id s
           = Some (Inr (), emits (status_line state # failure_report state status_data) s1)"
      by (rule track_loop_failure [OF fetch stage])
  }
  {
    assume "state \<notin> set (SUCCESS @ TERMINAL_FAILURE @ NON_TERMINAL)"
    then show "track_loop cfg w export_id s
           = Some (Inr (), emits (status_line state # anomaly_report state status_data) s1)"
      by (rule track_loop_unknown [OF fetch stage])
  }
  {
    assume a: "state \<in> set NON_TERMINAL \<and> \<not> sleep_interrupted w (naps s1)"
    then show "track_loop cfg w export_id s
           = track_loop cfg w export_id (slept (emit (status_line state) s1))"
      using track_loop_wait [OF fetch stage] by simp
    from get_status_shape [OF fetch] obtain full_path
      where fp: "full_path_of cfg export_id = Inr full_path"
      by auto
    show "\<exists>full_path.
               snd (get_data_export_status cfg w export_id (slept (emit (status_line state) s1)))
                 = sent (status_url cfg full_path) (slept (emit (status_line state) s1))"
      using fp
      by (intro exI [of _ full_path])
         (auto simp: get_data_export_status_def bind_def lift_def send_def sent_def
            status_url_def Let_def split: sum.splits net.splits)
  }
next
  assume h: "full_path_of cfg export_id = Inr full_path
        \<and> stage_at w (requests s) = Some (JStr ''PROCESSING'')
        \<and> stage_at w (requests s + 1) = Some (JStr ''PROCESSING'')
        \<and> stage_at w (requests s + 2) = Some (JStr ''FINISHED_SUCCESS'')
        \<and> \<not> sleep_interrupted w (naps s) \<and> \<not> sleep_interrupted w (naps s + 1)"
  then have fp: "full_path_of cfg export_id = Inr full_path" by simp
  from h obtain p1 p2 p3
    where p1: "status_at w (requests s) = Some p1" "stage_of p1 = Inr (JStr ''PROCESSING'')"
      and p2: "status_at w (requests s + 1) = Some p2" "stage_of p2 = Inr (JStr ''PROCESSING'')"
      and p3: "status_at w (requests s + 2) = Some p3" "stage_of p3 = Inr (JStr ''FINISHED_SUCCESS'')"
    by (auto dest!: stage_atD)
  let ?u = "status_url cfg full_path"
  let ?P = "status_line (JStr ''PROCESSING'')"
  let ?a = "emits (tracker_banner export_id) s"
  let ?a1 = "sent ?u ?a"
  let ?b = "slept (emit ?P ?a1)"
  let ?b1 = "sent ?u ?b"
  let ?c = "slept (emit ?P ?b1)"
  let ?c1 = "sent ?u ?c"
  let ?d = "emits (status_line (JStr ''FINISHED_SUCCESS'') # success_report) ?c1"
  have ra: "requests ?a = requests s" "naps ?a = naps s"
    by (simp_all add: emits_def)
  have rb: "requests ?b = requests s + 1" "naps ?b = naps s + 1" "naps ?a1 = naps s"
    by (simp_all add: emits_def slept_def emit_def sent_def)
  have rc: "requests ?c = requests s + 2" "naps ?b1 = naps s + 1"
    by (simp_all add: emits_def slept_def emit_def sent_def)
  have f1: "get_data_export_status cfg w export_id ?a = (Inr p1, ?a1)"
    using get_status_fetched [OF fp, of w ?a p1] p1(1) ra by simp
  have f2: "get_data_export_status cfg w export_id ?b = (Inr p2, ?b1)"
    using get_status_fetched [OF fp, of w ?b p2] p2(1) rb by simp
  have f3: "get_data_export_status cfg w export_id ?c = (Inr p3, ?c1)"
    using get_status_fetched [OF fp, of w ?c p3] p3(1) rc by simp
  have "track_loop cfg w export_id ?a = track_loop cfg w export_id ?b"
    using track_loop_wait [OF f1 p1(2)] h rb by (simp add: NON_TERMINAL_def)
  also have "\<dots> = track_loop cfg w export_id ?c"
    using track_loop_wait [OF f2 p2(2)] h rc by (simp add: NON_TERMINAL_def)
  also have "\<dots> = Some (Inr (), ?d)"
    using track_loop_success [OF f3 p3(2)] by (simp add: SUCCESS_def)
  finally have loop: "track_loop cfg w export_id ?a = Some (Inr (), ?d)" .
  have run: "track_export_until_completion cfg w export_id s = Some (Inr (), ?d)"
    using loop
    by (simp add: track_export_until_completion_def bind_def print_def emit_def emits_def
          tracker_banner_def)
  have tr: "trace ?d = trace s @ tracker_banner export_id
                @ [?u, ?P, Sleep 30, ?u, ?P, Sleep 30, ?u, status_line (JStr ''FINISHED_SUCCESS'')]
                @ success_report"
    by (simp add: emits_def slept_def emit_def sent_def)
  have obs: "observations (trace ?d) = observations (trace s)
                  @ [JStr ''PROCESSING'', JStr ''PROCESSING'', JStr ''FINISHED_SUCCESS'']"
    unfolding tr observations_append
    by (simp add: observations_def tracker_banner_def status_url_def status_line_def
          success_report_def)
  have req: "requests ?d = requests s + 3"
    by (simp add: emits_def slept_def emit_def sent_def)
  show "\<exists>s'. track_export_until_completion cfg w export_id s = Some (Inr (), s')
           \<and> trace s' = trace s @ tracker_banner export_id
                @ [status_url cfg full_path, status_line (JStr ''PROCESSING''), Sleep 30,
                   status_url cfg full_path, status_line (JStr ''PROCESSING''), Sleep 30,
                   status_url cfg full_path, status_line (JStr ''FINISHED_SUCCESS'')]
                @ success_report
           \<and> observations (trace s')
               = observations (trace s)
                  @ [JStr ''PROCESSING'', JStr ''PROCESSING'', JStr ''FINISHED_SUCCESS'']
           \<and> requests s' = requests s + 3"
    using run tr obs req by (intro exI [of _ ?d]) simp
qed

lemma example_full_path: "full_path_of example_config (JStr ''abc'') = Inr example_path"
  by (simp add: normalize_id_def sublist_code INSTANCE_BASE_PATH_def fmt_env_def
        example_config_def example_path_def)

lemma example_stage_of: "stage_of (status_payload stage) = Inr (JStr stage)"
  by (simp add: stage_of_def status_payload_def)

lemma example_status_at:
  "k < length xs \<Longrightarrow> status_at (example_world (stages xs)) k = Some (status_payload (xs ! k))"
  by (simp add: status_at_def example_world_def stages_def ok_reply_def raise_for_status_def
        json_of_def)

lemma example_stage_at:
  "k < length xs \<Longrightarrow> stage_at (example_world (stages xs)) k = Some (JStr (xs ! k))"
  by (simp add: stage_at_def example_status_at example_stage_of)

lemma example_awake: "\<not> sleep_interrupted (example_world rs) k"
  by (simp add: example_world_def)

lemma example_fetch:
  "get_data_export_status example_config (example_world (stages [x])) (JStr ''abc'') start
     = (Inr (status_payload x), sent (status_url example_config example_path) start)"
  by (rule get_status_fetched [OF example_full_path]) (simp add: example_status_at start_def)

theorem poller_state_machine_witness:
  "track_loop example_config (example_world (stages [''FINISHED_SUCCESS''])) (JStr ''abc'') start
     = Some (Inr (), emits (status_line (JStr ''FINISHED_SUCCESS'') # success_report)
                       (sent (status_url example_config example_path) start))
   \<and> track_loop example_config (example_world (stages [''CANCELLED''])) (JStr ''abc'') start
     = Some (Inr (), emits (status_line (JStr ''CANCELLED'')
                             # failure_report (JStr ''CANCELLED'') (status_payload ''CANCELLED''))
                       (sent (status_url example_config example_path) start))
   \<and> track_loop example_config (example_world (stages [''PAUSED''])) (JStr ''abc'') start
     = Some (Inr (), emits (status_line (JStr ''PAUSED'')
                             # anomaly_report (JStr ''PAUSED'') (status_payload ''PAUSED''))
                       (sent (status_url example_config example_path) start))
   \<and> (\<exists>s'. track_export_until_completion example_config
              (example_world (stages [''PROCESSING'', ''PROCESSING'', ''FINISHED_SUCCESS'']))
              (JStr ''abc'') start = Some (Inr (), s')
          \<and> observations (trace s')
              = [JStr ''PROCESSING'', JStr ''PROCESSING'', JStr ''FINISHED_SUCCESS'']
          \<and> requests s' = 3)"
proof -
  have a: "track_loop example_config (example_world (stages [''FINISHED_SUCCESS''])) (JStr ''abc'') start
     = Some (Inr (), emits (status_line (JStr ''FINISHED_SUCCESS'') # success_report)
                       (sent (status_url example_config example_path) start))"
    using poller_state_machine [where cfg = example_config
      and export_id = "JStr ''abc''" and s = start
      and w = "example_world (stages [''FINISHED_SUCCESS''])"
      and status_data = "status_payload ''FINISHED_SUCCESS''"
      and state = "JStr ''FINISHED_SUCCESS''"
      and ?s1.0 = "sent (status_url example_config example_path) start", THEN conjunct1]
      example_fetch [of "''FINISHED_SUCCESS''"]
    by (simp add: example_stage_of SUCCESS_def)
  have b: "track_loop example_config (example_world (stages [''CANCELLED''])) (JStr ''abc'') start
     = Some (Inr (), emits (status_line (JStr ''CANCELLED'')
                             # failure_report (JStr ''CANCELLED'') (status_payload ''CANCELLED''))
                       (sent (status_url example_config example_path) start))"
    using poller_state_machine [where cfg = example_config
      and export_id = "JStr ''abc''" and s = start
      and w = "example_world (stages [''CANCELLED''])"
      and status_data = "status_payload ''CANCELLED''"
      and state = "JStr ''CANCELLED''"
      and ?s1.0 = "sent (status_url example_config example_path) start", THEN conjunct1]
      example_fetch [of "''CANCELLED''"]
    by (simp add: example_stage_of TERMINAL_FAILURE_def)
  have c: "track_loop example_config (example_world (stages [''PAUSED''])) (JStr ''abc'') start
     = Some (Inr (), emits (status_line (JStr ''PAUSED'')
                             # anomaly_report (JStr ''PAUSED'') (status_payload ''PAUSED''))
                       (sent (status_url example_config example_path) start))"
    using poller_state_machine [where cfg = example_config
      and export_id = "JStr ''abc''" and s = start
      and w = "example_world (stages [''PAUSED''])"
      and status_data = "status_payload ''PAUSED''"
      and state = "JStr ''PAUSED''"
      and ?s1.0 = "sent (status_url example_config example_path) start", THEN conjunct1]
      example_fetch [of "''PAUSED''"]
    by (simp add: example_stage_of SUCCESS_def TERMINAL_FAILURE_def NON_TERMINAL_def)
  let ?w = "example_world (stages [''PROCESSING'', ''PROCESSING'', ''FINISHED_SUCCESS''])"
  have pre: "full_path_of example_config (JStr ''abc'') = Inr example_path
        \<and> stage_at ?w (requests start) = Some (JStr ''PROCESSING'')
        \<and> stage_at ?w (requests start + 1) = Some (JStr ''PROCESSING'')
        \<and> stage_at ?w (requests start + 2) = Some (JStr ''FINISHED_SUCCESS'')
        \<and> \<not> sleep_interrupted ?w (naps start) \<and> \<not> sleep_interrupted ?w (naps start + 1)"
    by (simp add: example_full_path example_stage_at example_awake start_def
          del: full_path_of.simps)
  have d: "\<exists>s'. track_export_until_completion example_config ?w (JStr ''abc'') start
                  = Some (Inr (), s')
          \<and> observations (trace s')
              = [JStr ''PROCESSING'', JStr ''PROCESSING'', JStr ''FINISHED_SUCCESS'']
          \<and> requests s' = 3"
    using poller_state_machine [where cfg = example_config
      and export_id = "JStr ''abc''" and s = start and full_path = example_path
      and w = ?w, THEN conjunct2, THEN mp, OF pre]
    by (auto simp: start_def observations_def)
  from a b c d show ?thesis by simp
qed

lemma tracker_interrupted:
  assumes "track_loop cfg w export_id (emits (tracker_banner export_id) s)
             = Some (Inl KeyboardInterrupt, s2)"
  shows "track_export_until_completion cfg w export_id s
           = Some (Inr (), emits stopped_report s2)"
  using assms
  by (simp add: track_export_until_completion_def bind_def print_def emit_def emits_def
        tracker_banner_def stopped_report_def)

text \<open>
  C5. The tracker never sends a POST request, so it never sends the cancel request, in any
  run that returns, interrupted or not. When Ctrl+C arrives during the sleep that follows
  the (n+1)-th fetch, or during the (n+1)-th fetch itself, the tracker returns at once:
  its only further effect is the line saying that tracking stopped, and no request
  follows the interrupted call.
\<close>

theorem tracking_stop_is_not_cancellation:
  "(track_export_until_completion cfg w export_id s = Some (r, s') \<longrightarrow>
      filter is_POST (trace s') = filter is_POST (trace s))
   \<and> (full_path_of cfg export_id = Inr full_path
        \<and> waits w (requests s) (naps s) n
        \<and> stage_at w (requests s + n) = Some state \<and> state \<in> set NON_TERMINAL
        \<and> sleep_interrupted w (naps s + n) \<longrightarrow>
        (\<exists>s2. track_export_until_completion cfg w export_id s
                 = Some (Inr (), emits stopped_report (slept s2))
            \<and> requests s2 = requests s + n + 1
            \<and> filter is_POST (trace s2) = filter is_POST (trace s)))
   \<and> (full_path_of cfg export_id = Inr full_path
        \<and> waits w (requests s) (naps s) n
        \<and> replies w (requests s + n) = Interrupt \<longrightarrow>
        (\<exists>s2. track_export_until_completion cfg w export_id s
                 = Some (Inr (), emits stopped_report (sent (status_url cfg full_path) s2))
            \<and> requests s2 = requests s + n
            \<and> filter is_POST (trace s2) = filter is_POST (trace s)))"
proof (intro conjI impI)
  assume "track_export_until_completion cfg w export_id s = Some (r, s')"
  then show "filter is_POST (trace s') = filter is_POST (trace s)"
    by (rule tracker_posts)
next
  let ?a = "emits (tracker_banner export_id) s"
  assume h: "full_path_of cfg export_id = Inr full_path
        \<and> waits w (requests s) (naps s) n
        \<and> stage_at w (requests s + n) = Some state \<and> state \<in> set NON_TERMINAL
        \<and> sleep_interrupted w (naps s + n)"
  then have fp: "full_path_of cfg export_id = Inr full_path"
    and "waits w (requests ?a) (naps ?a) n"
    by (simp_all add: emits_def)
  from track_loop_after_waits [OF this] obtain s1
    where s1: "track_loop cfg w export_id ?a = track_loop cfg w export_id s1"
      "requests s1 = requests s + n" "naps s1 = naps s + n"
      "filter is_POST (trace s1) = filter is_POST (trace s)"
    by (auto simp: emits_def tracker_banner_def)
  from h s1 obtain status_data
    where sd: "status_at w (requests s1) = Some status_data" "stage_of status_data = Inr state"
    by (auto dest!: stage_atD)
  let ?s2 = "emit (status_line state) (sent (status_url cfg full_path) s1)"
  have "track_loop cfg w export_id s1 = Some (Inl KeyboardInterrupt, slept ?s2)"
    using track_loop_wait [OF get_status_fetched [OF fp sd(1)] sd(2)] h s1
    by (simp add: sent_def emit_def)
  with s1 have "track_export_until_completion cfg w export_id s
                  = Some (Inr (), emits stopped_report (slept ?s2))"
    by (intro tracker_interrupted) simp
  moreover have "requests ?s2 = requests s + n + 1"
    using s1 by (simp add: sent_def emit_def)
  moreover have "filter is_POST (trace ?s2) = filter is_POST (trace s)"
    using s1 by (simp add: sent_def emit_def status_line_def status_url_def)
  ultimately show "\<exists>s2. track_export_until_completion cfg w export_id s
                 = Some (Inr (), emits stopped_report (slept s2))
            \<and> requests s2 = requests s + n + 1
            \<and> filter is_POST (trace s2) = filter is_POST (trace s)"
    by blast
next
  let ?a = "emits (tracker_banner export_id) s"
  assume h: "full_path_of cfg export_id = Inr full_path
        \<and> waits w (requests s) (naps s) n
        \<and> replies w (requests s + n) = Interrupt"
  then have fp: "full_path_of cfg export_id = Inr full_path"
    and "waits w (requests ?a) (naps ?a) n"
    by (simp_all add: emits_def)
  from track_loop_after_waits [OF this] obtain s1
    where s1: "track_loop cfg w export_id ?a = track_loop cfg w export_id s1"
      "requests s1 = requests s + n" "naps s1 = naps s + n"
      "filter is_POST (trace s1) = filter is_POST (trace s)"
    by (auto simp: emits_def tracker_banner_def)
  from h s1 have "replies w (requests s1) = Interrupt"
    by simp
  from get_status_interrupted [OF fp this]
  have "track_loop cfg w export_id s1
          = Some (Inl KeyboardInterrupt, sent (status_url cfg full_path) s1)"
    by (subst track_loop.simps) simp
  with s1 have "track_export_until_completion cfg w export_id s
                  = Some (Inr (), emits stopped_report (sent (status_url cfg full_path) s1))"
    by (intro tracker_interrupted) simp
  with s1 show "\<exists>s2. track_export_until_completion cfg w export_id s
                 = Some (Inr (), emits stopped_report (sent (status_url cfg full_path) s2))
            \<and> requests s2 = requests s + n
            \<and> filter is_POST (trace s2) = filter is_POST (trace s)"
    by blast
qed

lemma interrupting_stage_at:
  "k < length xs \<Longrightarrow> stage_at (interrupting_world (stages xs) j) k = Some (JStr (xs ! k))"
  by (simp add: stage_at_def status_at_def interrupting_world_def example_world_def stages_def
        ok_reply_def raise_for_status_def json_of_def example_stage_of)

theorem tracking_stop_is_not_cancellation_witness:
  "(\<exists>s2. track_export_until_completion example_config
             (interrupting_world (stages [''PROCESSING'', ''PROCESSING'']) 1) (JStr ''abc'') start
           = Some (Inr (), emits stopped_report (slept s2))
         \<and> requests s2 = 2 \<and> filter is_POST (trace (emits stopped_report (slept s2))) = [])
   \<and> (\<exists>s2. track_export_until_completion example_config
             (example_world (scripted [ok_reply (status_payload ''PROCESSING''), Interrupt]))
             (JStr ''abc'') start
           = Some (Inr (), emits stopped_report (sent (status_url example_config example_path) s2))
         \<and> requests s2 = 1 \<and> filter is_POST (trace s2) = [])"
proof -
  let ?w = "interrupting_world (stages [''PROCESSING'', ''PROCESSING'']) 1"
  have pre: "full_path_of example_config (JStr ''abc'') = Inr example_path
        \<and> waits ?w (requests start) (naps start) 1
        \<and> stage_at ?w (requests start + 1) = Some (JStr ''PROCESSING'')
        \<and> JStr ''PROCESSING'' \<in> set NON_TERMINAL
        \<and> sleep_interrupted ?w (naps start + 1)"
    by (simp add: example_full_path interrupting_stage_at start_def NON_TERMINAL_def
          del: full_path_of.simps)
       (simp add: interrupting_world_def)
  from tracking_stop_is_not_cancellation [where cfg = example_config and w = ?w
      and export_id = "JStr ''abc''" and s = start and full_path = example_path and n = 1
      and state = "JStr ''PROCESSING''", THEN conjunct2, THEN conjunct1, THEN mp, OF pre]
  obtain s2 where run: "track_export_until_completion example_config ?w (JStr ''abc'') start
           = Some (Inr (), emits stopped_report (slept s2))"
    and req: "requests s2 = 2"
    by (auto simp: start_def)
  from tracking_stop_is_not_cancellation [where cfg = example_config and w = ?w
      and export_id = "JStr ''abc''" and s = start
      and r = "Inr ()" and s' = "emits stopped_report (slept s2)",
      THEN conjunct1, THEN mp, OF run]
  have "filter is_POST (trace (emits stopped_report (slept s2))) = []"
    by (simp add: start_def)
  with run req have a: "\<exists>s2. track_export_until_completion example_config ?w (JStr ''abc'') start
           = Some (Inr (), emits stopped_report (slept s2))
         \<and> requests s2 = 2 \<and> filter is_POST (trace (emits stopped_report (slept s2))) = []"
    by blast
  let ?v = "example_world (scripted [ok_reply (status_payload ''PROCESSING''), Interrupt])"
  have pre': "full_path_of example_config (JStr ''abc'') = Inr example_path
        \<and> waits ?v (requests start) (naps start) 1
        \<and> replies ?v (requests start + 1) = Interrupt"
    by (simp add: example_full_path start_def NON_TERMINAL_def stage_at_def status_at_def
          example_world_def scripted_def ok_reply_def raise_for_status_def json_of_def
          example_stage_of del: full_path_of.simps)
  from tracking_stop_is_not_cancellation [where cfg = example_config and w = ?v
      and export_id = "JStr ''abc''" and s = start and full_path = example_path and n = 1,
      THEN conjunct2, THEN conjunct2, THEN mp, OF pre']
  have b: "\<exists>s2. track_export_until_completion example_config ?v (JStr ''abc'') start
           = Some (Inr (), emits stopped_report (sent (status_url example_config example_path) s2))
         \<and> requests s2 = 1 \<and> filter is_POST (trace s2) = []"
    by (simp add: start_def)
  from a b show ?thesis by simp
qed

section \<open>Properties of the read-only operations\<close>

lemma send_answered:
  "status_at w (requests s) = Some data \<Longrightarrow>
     \<exists>r. send w e s = (Inr r, sent e s) \<and> raise_for_status r = Inr () \<and> json_of r = Inr data"
  by (auto simp: send_def sent_def status_at_def Let_def split: net.splits sum.splits)

lemma fetch_service_account_result:
  assumes "status_at w (requests s) = Some (JObj kvs)"
  shows "fst (fetch_service_account cfg w s)
           = Inr (case map_of kvs ''serviceAccountEmail'' of
                    None \<Rightarrow> (case map_of kvs ''email'' of None \<Rightarrow> JNull | Some e \<Rightarrow> e)
                  | Some v \<Rightarrow>
                      if truthy v then v
                      else (case map_of kvs ''email'' of None \<Rightarrow> JNull | Some e \<Rightarrow> e))"
proof -
  let ?s1 = "emit (Print [Lit (CHR 0x0A # ''[Action] Fetching Chronicle Service Account...'')]) s"
  have "status_at w (requests ?s1) = Some (JObj kvs)"
    using assms by (simp add: emit_def)
  from send_answered [OF this] obtain r
    where "send w (sa_url cfg) ?s1 = (Inr r, sent (sa_url cfg) ?s1)"
      "raise_for_status r = Inr ()" "json_of r = Inr (JObj kvs)"
    by blast
  then show ?thesis
    by (simp add: fetch_service_account_def bind_def lift_def print_def sa_url_def
          split: option.splits)
qed

text \<open>
  C10. When the request is answered with a JSON object, \<open>fetch_service_account\<close> returns
  the value of \<open>serviceAccountEmail\<close> if the key is there with a value that is not empty;
  if the key is absent, or its value is the empty string or \<open>None\<close>, it returns the value of
  \<open>email\<close>; with neither key it returns \<open>None\<close>, and raises nothing.
\<close>

theorem fetch_service_account_email:
  "status_at w (requests s) = Some (JObj kvs) \<longrightarrow>
     (map_of kvs ''serviceAccountEmail'' = Some v \<and> truthy v \<longrightarrow>
        fst (fetch_service_account cfg w s) = Inr v)
     \<and> ((map_of kvs ''serviceAccountEmail'' = None
          \<or> map_of kvs ''serviceAccountEmail'' = Some (JStr [])
          \<or> map_of kvs ''serviceAccountEmail'' = Some JNull)
         \<and> map_of kvs ''email'' = Some e \<longrightarrow>
        fst (fetch_service_account cfg w s) = Inr e)
     \<and> (map_of kvs ''serviceAccountEmail'' = None \<and> map_of kvs ''email'' = None \<longrightarrow>
        fst (fetch_service_account cfg w s) = Inr JNull)"
  by (auto simp: fetch_service_account_result)

theorem fetch_service_account_email_witness:
  "fst (fetch_service_account example_config
          (example_world (scripted [ok_reply (JObj [(''serviceAccountEmail'', JStr ''sa@chronicle''),
                                                     (''email'', JStr ''other@chronicle'')])])) start)
     = Inr (JStr ''sa@chronicle'')
   \<and> fst (fetch_service_account example_config
          (example_world (scripted [ok_reply (JObj [(''serviceAccountEmail'', JStr []),
                                                     (''email'', JStr ''other@chronicle'')])])) start)
     = Inr (JStr ''other@chronicle'')
   \<and> fst (fetch_service_account example_config
          (example_world (scripted [ok_reply (JObj [(''name'', JStr ''x'')])])) start)
     = Inr JNull"
  using
    fetch_service_account_email [where cfg = example_config and s = start
      and w = "example_world (scripted [ok_reply (JObj [(''serviceAccountEmail'', JStr ''sa@chronicle''),
                                                     (''email'', JStr ''other@chronicle'')])])"
      and kvs = "[(''serviceAccountEmail'', JStr ''sa@chronicle''), (''email'', JStr ''other@chronicle'')]"
      and v = "JStr ''sa@chronicle''" and e = JNull]
    fetch_service_account_email [where cfg = example_config and s = start
      and w = "example_world (scripted [ok_reply (JObj [(''serviceAccountEmail'', JStr []),
                                                     (''email'', JStr ''other@chronicle'')])])"
      and kvs = "[(''serviceAccountEmail'', JStr []), (''email'', JStr ''other@chronicle'')]"
      and v = JNull and e = "JStr ''other@chronicle''"]
    fetch_service_account_email [where cfg = example_config and s = start
      and w = "example_world (scripted [ok_reply (JObj [(''name'', JStr ''x'')])])"
      and kvs = "[(''name'', JStr ''x'')]" and v = JNull and e = JNull]
  by (simp add: status_at_def example_world_def scripted_def ok_reply_def raise_for_status_def
        json_of_def start_def)

lemma print_exports_lines:
  "map export_line exports = map Inr lines \<Longrightarrow>
     print_exports exports s = (Inr (), emits (map Print lines) s)"
proof (induction exports arbitrary: lines s)
  case Nil
  then show ?case by (simp add: lift_def emits_def)
next
  case (Cons export rest)
  then obtain line more where lines: "lines = line # more"
    and line: "export_line export = Inr line" and more: "map export_line rest = map Inr more"
    by (cases lines) auto
  show ?case
    using Cons.IH [OF more] line
    by (simp add: lines bind_def lift_def print_def emit_def emits_def)
qed

lemma list_data_exports_none:
  assumes "status_at w (requests s) = Some (JObj kvs)"
    and "map_of kvs ''dataExports'' = None \<or> map_of kvs ''dataExports'' = Some (JArr [])"
  shows "list_data_exports cfg w s
          = (Inr JNull, emits [Print [Lit ''No data exports found.'']]
                       (sent (list_url cfg)
                          (emits [Print [Lit (CHR 0x0A # ''[Action] Listing Data Exports...'')]] s)))"
proof -
  let ?s1 = "emits [Print [Lit (CHR 0x0A # ''[Action] Listing Data Exports...'')]] s"
  from assms(1) have "status_at w (requests ?s1) = Some (JObj kvs)"
    by (simp add: emits_def)
  from send_answered [OF this] obtain r
    where "send w (list_url cfg) ?s1 = (Inr r, sent (list_url cfg) ?s1)"
      "raise_for_status r = Inr ()" "json_of r = Inr (JObj kvs)"
    by blast
  with assms(2) show ?thesis
    by (auto simp: list_data_exports_def bind_def lift_def print_def list_url_def emit_def
          emits_def)
qed

lemma list_data_exports_some:
  assumes "status_at w (requests s) = Some (JObj kvs)"
    and "map_of kvs ''dataExports'' = Some (JArr exports)" "exports \<noteq> []"
    and lines: "map export_line exports = map Inr lines"
  shows "list_data_exports cfg w s
          = (Inr JNull, emits (Print [Lit ''Found '', Str (JNum (int (length exports))),
                                   Lit ('' export(s):'' @ [CHR 0x0A])]
                            # map Print lines)
                       (sent (list_url cfg)
                          (emits [Print [Lit (CHR 0x0A # ''[Action] Listing Data Exports...'')]] s)))"
proof -
  let ?s1 = "emits [Print [Lit (CHR 0x0A # ''[Action] Listing Data Exports...'')]] s"
  from assms(1) have "status_at w (requests ?s1) = Some (JObj kvs)"
    by (simp add: emits_def)
  from send_answered [OF this] obtain r
    where "send w (list_url cfg) ?s1 = (Inr r, sent (list_url cfg) ?s1)"
      "raise_for_status r = Inr ()" "json_of r = Inr (JObj kvs)"
    by blast
  with assms(2,3) print_exports_lines [OF lines] show ?thesis
    by (simp add: list_data_exports_def bind_def lift_def print_def list_url_def emit_def
          emits_def)
qed

lemma export_line_summary:
  assumes "map_of entry ''name'' = Some (JStr full_name)"
    and "map_of entry ''dataExportStatus'' = Some (JObj status)"
    and "map_of status ''stage'' = Some (JStr stage)"
    and "map_of entry ''createTime'' = Some create_time"
  shows "export_line (JObj entry)
           = Inr [Lit ''ID: '', Ljust (JStr (last_segment full_name)) 38, Lit '' | Stage: '',
                  Ljust (JStr stage) 20, Lit '' | Created: '', Str create_time]"
  using assms by (simp add: export_line_def)

text \<open>
  C9. \<open>list_data_exports\<close> does not return the exports: it prints them and returns
  \<open>None\<close>. When the request is answered with a JSON object, it prints, after the count,
  one line per entry of \<open>dataExports\<close>, in the order in which the service lists them, the
  i-th line made from the i-th entry (for entries for which the line can be formatted);
  the line of an entry with a name, a stage and a creation time shows the last segment of
  the name, the stage and the creation time. An empty or absent list is no error: the
  operation prints that there are no exports and completes normally. On both paths the
  value returned is \<open>None\<close>.
\<close>

theorem list_data_exports_in_order:
  "(status_at w (requests s) = Some (JObj kvs) \<longrightarrow>
     ((map_of kvs ''dataExports'' = None \<or> map_of kvs ''dataExports'' = Some (JArr [])) \<longrightarrow>
        list_data_exports cfg w s
          = (Inr JNull, emits [Print [Lit ''No data exports found.'']]
                       (sent (list_url cfg)
                          (emits [Print [Lit (CHR 0x0A # ''[Action] Listing Data Exports...'')]] s))))
     \<and> (map_of kvs ''dataExports'' = Some (JArr exports) \<and> exports \<noteq> []
         \<and> map export_line exports = map Inr lines \<longrightarrow>
        list_data_exports cfg w s
          = (Inr JNull, emits (Print [Lit ''Found '', Str (JNum (int (length exports))),
                                   Lit ('' export(s):'' @ [CHR 0x0A])]
                            # map Print lines)
                       (sent (list_url cfg)
                          (emits [Print [Lit (CHR 0x0A # ''[Action] Listing Data Exports...'')]] s)))))
   \<and> (map_of entry ''name'' = Some (JStr full_name)
        \<and> map_of entry ''dataExportStatus'' = Some (JObj status)
        \<and> map_of status ''stage'' = Some (JStr stage)
        \<and> map_of entry ''createTime'' = Some create_time \<longrightarrow>
        export_line (JObj entry)
          = Inr [Lit ''ID: '', Ljust (JStr (last_segment full_name)) 38, Lit '' | Stage: '',
                 Ljust (JStr stage) 20, Lit '' | Created: '', Str create_time])"
  using list_data_exports_none [of w s kvs cfg]
    list_data_exports_some [of w s kvs exports lines cfg]
    export_line_summary [of entry full_name status stage create_time]
  by blast

lemma example_export_lines: "map export_line example_exports = map Inr example_lines"
  by (simp add: example_exports_def example_lines_def export_line_def last_segment_def)

lemma example_listing:
  "status_at (example_world (scripted [ok_reply (JObj kvs)])) (requests start) = Some (JObj kvs)"
  by (simp add: status_at_def example_world_def scripted_def ok_reply_def raise_for_status_def
        json_of_def start_def)

theorem list_data_exports_in_order_witness:
  "list_data_exports example_config
          (example_world (scripted [ok_reply (JObj [(''dataExports'', JArr [])])])) start
     = (Inr JNull,
        \<lparr>requests = 1, naps = 0,
         trace = [Print [Lit (CHR 0x0A # ''[Action] Listing Data Exports...'')],
                  list_url example_config,
                  Print [Lit ''No data exports found.'']]\<rparr>)
   \<and> list_data_exports example_config
          (example_world (scripted [ok_reply (JObj [(''dataExports'', JArr example_exports)])]))
          start
     = (Inr JNull,
        \<lparr>requests = 1, naps = 0,
         trace = [Print [Lit (CHR 0x0A # ''[Action] Listing Data Exports...'')],
                  list_url example_config,
                  Print [Lit ''Found '', Str (JNum 2), Lit ('' export(s):'' @ [CHR 0x0A])]]
                 @ map Print example_lines\<rparr>)
   \<and> export_line (JObj [(''name'', JStr ''projects/p/locations/us/instances/i/dataExports/second''),
                         (''dataExportStatus'', JObj [(''stage'', JStr ''PROCESSING'')]),
                         (''createTime'', JStr ''2024-03-01T10:00:00Z'')])
       = Inr [Lit ''ID: '',
              Ljust (JStr (last_segment ''projects/p/locations/us/instances/i/dataExports/second'')) 38,
              Lit '' | Stage: '', Ljust (JStr ''PROCESSING'') 20, Lit '' | Created: '',
              Str (JStr ''2024-03-01T10:00:00Z'')]"
proof -
  let ?empty = "example_world (scripted [ok_reply (JObj [(''dataExports'', JArr [])])])"
  let ?two = "example_world (scripted [ok_reply (JObj [(''dataExports'', JArr example_exports)])])"
  let ?entry = "[(''name'', JStr ''projects/p/locations/us/instances/i/dataExports/second''),
                 (''dataExportStatus'', JObj [(''stage'', JStr ''PROCESSING'')]),
                 (''createTime'', JStr ''2024-03-01T10:00:00Z'')]"
  note a = example_listing [of "[(''dataExports'', JArr [])]"]
  note b = example_listing [of "[(''dataExports'', JArr example_exports)]"]
  have ne: "example_exports \<noteq> []"
    by (simp add: example_exports_def)
  have shape: "map_of ?entry ''name''
                 = Some (JStr ''projects/p/locations/us/instances/i/dataExports/second'')
        \<and> map_of ?entry ''dataExportStatus'' = Some (JObj [(''stage'', JStr ''PROCESSING'')])
        \<and> map_of [(''stage'', JStr ''PROCESSING'')] ''stage'' = Some (JStr ''PROCESSING'')
        \<and> map_of ?entry ''createTime'' = Some (JStr ''2024-03-01T10:00:00Z'')"
    by simp
  from list_data_exports_in_order [where cfg = example_config and w = ?empty and s = start
      and kvs = "[(''dataExports'', JArr [])]" and exports = "[]" and lines = "[]",
      THEN conjunct1, THEN mp, OF a, THEN conjunct1]
  have first: "list_data_exports example_config ?empty start
     = (Inr JNull,
        \<lparr>requests = 1, naps = 0,
         trace = [Print [Lit (CHR 0x0A # ''[Action] Listing Data Exports...'')],
                  list_url example_config,
                  Print [Lit ''No data exports found.'']]\<rparr>)"
    by (simp add: emits_def sent_def emit_def start_def)
  from list_data_exports_in_order [where cfg = example_config and w = ?two and s = start
      and kvs = "[(''dataExports'', JArr example_exports)]" and exports = example_exports
      and lines = example_lines, THEN conjunct1, THEN mp, OF b, THEN conjunct2]
    ne example_export_lines
  have second: "list_data_exports example_config ?two start
     = (Inr JNull,
        \<lparr>requests = 1, naps = 0,
         trace = [Print [Lit (CHR 0x0A # ''[Action] Listing Data Exports...'')],
                  list_url example_config,
                  Print [Lit ''Found '', Str (JNum 2), Lit ('' export(s):'' @ [CHR 0x0A])]]
                 @ map Print example_lines\<rparr>)"
    by (simp add: emits_def sent_def emit_def start_def) (simp add: example_exports_def)
  from list_data_exports_in_order [where entry = ?entry, THEN conjunct2, THEN mp, OF shape]
    first second
  show ?thesis
    by simp
qed

text \<open>
  The exports are not returned. With two exports in the answer of the service, the value
  that \<open>list_data_exports\<close> returns is \<open>None\<close>, not a sequence of two summaries; the
  two summaries are the last two lines printed.
\<close>

theorem list_data_exports_returns_none:
  "fst (list_data_exports example_config
          (example_world (scripted [ok_reply (JObj [(''dataExports'', JArr example_exports)])]))
          start) = Inr JNull
   \<and> length example_exports = 2
   \<and> trace (snd (list_data_exports example_config
          (example_world (scripted [ok_reply (JObj [(''dataExports'', JArr example_exports)])]))
          start))
       = [Print [Lit (CHR 0x0A # ''[Action] Listing Data Exports...'')],
          list_url example_config,
          Print [Lit ''Found '', Str (JNum 2), Lit ('' export(s):'' @ [CHR 0x0A])]]
         @ map Print example_lines"
proof -
  have ne: "example_exports \<noteq> []" and two: "length example_exports = 2"
    by (simp_all add: example_exports_def)
  from list_data_exports_some [OF example_listing _ ne example_export_lines,
      of "[(''dataExports'', JArr example_exports)]" example_config] two
  show ?thesis
    by (simp add: emits_def sent_def emit_def start_def)
qed

section \<open>Properties of the creation request\<close>

lemma posted_append: "posted (xs @ ys) = posted xs @ posted ys"
  by (simp add: posted_def)

lemma create_posts_payload:
  assumes "time_range w days_back = Inr (start_time, end_time)"
  shows "posted (trace (snd (create_data_export cfg w days_back log_types s)))
           = posted (trace s) @ [Some (JObj (creation_payload cfg start_time end_time log_types))]"
  using assms
  by (auto simp: create_data_export_def bind_def lift_def print_def emit_def send_def Let_def
        posted_def split: sum.splits net.splits prod.splits)

lemma log_type_path_base:
  "''v1alpha/'' @ log_type_path cfg lt = INSTANCE_BASE_PATH cfg @ ''/logTypes/'' @ lt"
  by (simp add: log_type_path_def INSTANCE_BASE_PATH_def)

lemma log_type_path_suffix: "suffix (''/logTypes/'' @ lt) (log_type_path cfg lt)"
  unfolding log_type_path_def suffix_def
  by (intro exI [of _ "''projects/'' @ fmt_env (PROJECT_ID cfg) @ ''/locations/''
        @ fmt_env (LOCATION cfg) @ ''/instances/'' @ fmt_env (INSTANCE_ID cfg)"]) simp

text \<open>
  C4. The one POST request of \<open>create_data_export\<close> carries the payload built from the
  time range: \<open>startTime\<close>, \<open>endTime\<close> and the configured bucket are always in it;
  \<open>includeLogTypes\<close> is in it exactly when log types were given and the list is not empty,
  and then holds, for each given log type in order, the path of that log type under the
  instance (the instance base path without its version, then \<open>/logTypes/\<close> and the
  name). With the bucket \<open>my-bucket\<close> and the log types \<open>["OKTA"]\<close> the bucket field is
  \<open>my-bucket\<close> and \<open>includeLogTypes\<close> holds exactly one path, which ends in
  \<open>/logTypes/OKTA\<close>.
\<close>

theorem creation_payload_fields:
  "(time_range w days_back = Inr (start_time, end_time) \<longrightarrow>
      posted (trace (snd (create_data_export cfg w days_back log_types s)))
        = posted (trace s) @ [Some (JObj (creation_payload cfg start_time end_time log_types))])
   \<and> map_of (creation_payload cfg start_time end_time log_types) ''startTime''
       = Some (JStr start_time)
   \<and> map_of (creation_payload cfg start_time end_time log_types) ''endTime''
       = Some (JStr end_time)
   \<and> map_of (creation_payload cfg start_time end_time log_types) ''gcsBucket''
       = Some (py_value (GCS_BUCKET cfg))
   \<and> (map_of (creation_payload cfg start_time end_time log_types) ''includeLogTypes'' \<noteq> None
        \<longleftrightarrow> (\<exists>lts. log_types = Some lts \<and> lts \<noteq> []))
   \<and> (log_types = Some lts \<and> lts \<noteq> [] \<longrightarrow>
        map_of (creation_payload cfg start_time end_time log_types) ''includeLogTypes''
          = Some (JArr (map (\<lambda>lt. JStr (log_type_path cfg lt)) lts))
        \<and> (\<forall>lt. ''v1alpha/'' @ log_type_path cfg lt
                    = INSTANCE_BASE_PATH cfg @ ''/logTypes/'' @ lt))
   \<and> (GCS_BUCKET cfg = Some ''my-bucket'' \<and> log_types = Some [''OKTA''] \<longrightarrow>
        map_of (creation_payload cfg start_time end_time log_types) ''gcsBucket''
          = Some (JStr ''my-bucket'')
        \<and> (\<exists>path. map_of (creation_payload cfg start_time end_time log_types) ''includeLogTypes''
                      = Some (JArr [JStr path])
                  \<and> suffix ''/logTypes/OKTA'' path))"
proof -
  have okta: "suffix ''/logTypes/OKTA'' (log_type_path cfg ''OKTA'')"
    using log_type_path_suffix [of "''OKTA''" cfg] by simp
  show ?thesis
    using okta
    by (auto simp: create_posts_payload creation_payload_def py_value_def log_type_path_def
          INSTANCE_BASE_PATH_def split: option.splits)
qed

lemma decimal_2024: "decimal 2024 = ''2024''"
  by code_simp

lemma example_time_range:
  "time_range (example_world answers) 1 = Inr (''2024-02-29T12:30:45Z'', ''2024-03-01T12:30:45Z'')"
  by (simp add: time_range_def example_world_def example_now_def timedelta_def minus_days_def
        toordinal_def ymd2ord_def days_before_year_def days_before_month_def is_leap_def
        DAYS_BEFORE_MONTH_def DAYS_IN_MONTH_def MAXORDINAL_def ord2ymd_def month_day_def Let_def
        strftime_def
        digit_def numeral_2_eq_2 decimal_2024)

theorem creation_payload_fields_witness:
  "posted (trace (snd (create_data_export example_config (example_world (stages [])) 1
                         (Some [''OKTA'']) start)))
     = [Some (JObj [(''startTime'', JStr ''2024-02-29T12:30:45Z''),
                    (''endTime'', JStr ''2024-03-01T12:30:45Z''),
                    (''gcsBucket'', JStr ''my-bucket''),
                    (''includeLogTypes'',
                     JArr [JStr ''projects/my-project/locations/us/instances/my-instance/logTypes/OKTA''])])]
   \<and> (\<exists>path. map_of (creation_payload example_config ''2024-02-29T12:30:45Z''
                        ''2024-03-01T12:30:45Z'' (Some [''OKTA''])) ''includeLogTypes''
                 = Some (JArr [JStr path])
             \<and> suffix ''/logTypes/OKTA'' path)"
  using creation_payload_fields [where cfg = example_config and w = "example_world (stages [])"
      and days_back = 1 and log_types = "Some [''OKTA'']" and s = start and lts = "[''OKTA'']"
      and start_time = "''2024-02-29T12:30:45Z''" and end_time = "''2024-03-01T12:30:45Z''"]
    example_time_range [of "stages []"]
  by (simp add: start_def posted_def)
     (simp add: creation_payload_def example_config_def py_value_def log_type_path_def fmt_env_def)

section \<open>Properties of the command line\<close>

text \<open>
  C7. When the project id, the instance id or the bucket is not set, \<open>main\<close> prints the
  configuration error and returns: that line is the only effect of the run. No credential
  file is loaded, so no session exists, and no request of any of the five operations is
  sent.
\<close>

theorem missing_configuration_stops_main:
  "PROJECT_ID cfg = None \<or> INSTANCE_ID cfg = None \<or> GCS_BUCKET cfg = None \<longrightarrow>
     main cfg a w s
       = Some (Inr (), emits [Print [Lit ''Error: Missing critical .env configuration.'']] s)
     \<and> (\<forall>s'. main cfg a w s = Some (Inr (), s') \<longrightarrow>
           requests s' = requests s \<and> filter is_GET (trace s') = filter is_GET (trace s)
           \<and> filter is_POST (trace s') = filter is_POST (trace s)
           \<and> (\<forall>file scopes. Load_credentials file scopes \<in> set (trace s') \<longrightarrow>
                  Load_credentials file scopes \<in> set (trace s)))"
  by (auto simp: main_def py_value_def print_def emit_def emits_def)

theorem missing_configuration_stops_main_witness:
  "main (example_config\<lparr>GCS_BUCKET := None\<rparr>)
        \<lparr>arg_create = True, arg_track = None, arg_fetch_sa = False, arg_list = False,
         arg_cancel = None, arg_days = 1, arg_log_types = None\<rparr>
        (example_world (stages [''FINISHED_SUCCESS''])) start
     = Some (Inr (), \<lparr>requests = 0, naps = 0,
                      trace = [Print [Lit ''Error: Missing critical .env configuration.'']]\<rparr>)"
  using missing_configuration_stops_main [where cfg = "example_config\<lparr>GCS_BUCKET := None\<rparr>"
      and s = start and w = "example_world (stages [''FINISHED_SUCCESS''])"
      and a = "\<lparr>arg_create = True, arg_track = None, arg_fetch_sa = False, arg_list = False,
         arg_cancel = None, arg_days = 1, arg_log_types = None\<rparr>"]
  by (simp add: start_def emits_def)












section \<open>Properties of the calendar\<close>

lemma div_step:
  fixes y k :: int
  assumes "0 < k"
  shows "y div k = (y - 1) div k + (if y mod k = 0 then 1 else 0)"
proof (cases "y mod k = 0")
  case True
  have "y = k * (y div k)"
    using True mult_div_mod_eq [of k y] by simp
  then have "y - 1 = k * (y div k - 1) + (k - 1)"
    by (simp add: algebra_simps)
  then have "(y - 1) div k = y div k - 1"
    using assms by (intro int_div_pos_eq [where r = "k - 1"]) simp_all
  with True show ?thesis by simp
next
  case False
  then have pos: "0 \<le> y mod k - 1"
    using assms pos_mod_sign [of k y] by linarith
  have bound: "y mod k - 1 < k"
    using assms pos_mod_bound [of k y] by linarith
  have "y - 1 = k * (y div k) + (y mod k - 1)"
    by (simp add: algebra_simps)
  then have "(y - 1) div k = y div k"
    using pos bound by (rule int_div_pos_eq)
  with False show ?thesis by simp
qed

lemma mod_100_4: "(y::int) mod 100 = 0 \<Longrightarrow> y mod 4 = 0"
  using mod_mod_cancel [of 4 100 y] by simp

lemma mod_400_100: "(y::int) mod 400 = 0 \<Longrightarrow> y mod 100 = 0"
  using mod_mod_cancel [of 100 400 y] by simp

lemma days_before_next_year:
  "days_before_year (y + 1) = days_before_year y + 365 + (if is_leap y then 1 else 0)"
proof -
  define q4 q100 q400 where "q4 = (y - 1) div 4" and "q100 = (y - 1) div 100"
    and "q400 = (y - 1) div 400"
  define b4 b100 b400 where "b4 \<longleftrightarrow> y mod 4 = 0" and "b100 \<longleftrightarrow> y mod 100 = 0"
    and "b400 \<longleftrightarrow> y mod 400 = 0"
  have d4: "y div 4 = q4 + (if b4 then 1 else 0)"
    unfolding q4_def b4_def by (rule div_step) simp
  have d100: "y div 100 = q100 + (if b100 then 1 else 0)"
    unfolding q100_def b100_def by (rule div_step) simp
  have d400: "y div 400 = q400 + (if b400 then 1 else 0)"
    unfolding q400_def b400_def by (rule div_step) simp
  have imp: "b100 \<Longrightarrow> b4" "b400 \<Longrightarrow> b100"
    unfolding b4_def b100_def b400_def by (rule mod_100_4, assumption) (rule mod_400_100, assumption)
  have leap: "is_leap y \<longleftrightarrow> b4 \<and> (\<not> b100 \<or> b400)"
    unfolding is_leap_def b4_def b100_def b400_def by (rule refl)
  have lhs: "days_before_year (y + 1) = y * 365 + y div 4 - y div 100 + y div 400"
    unfolding days_before_year_def by (simp only: add_diff_cancel_right')
  have rhs: "days_before_year y = (y - 1) * 365 + q4 - q100 + q400"
    unfolding days_before_year_def q4_def q100_def q400_def by (rule refl)
  show ?thesis
    unfolding lhs rhs d4 d100 d400 leap
    using imp by (cases b4; cases b100; cases b400; simp add: algebra_simps)
qed

lemma days_before_year_mono:
  assumes "y \<le> z"
  shows "days_before_year y \<le> days_before_year z"
  using assms
proof (induction z rule: int_ge_induct)
  case base
  show ?case by simp
next
  case (step i)
  have "days_before_year i \<le> days_before_year (i + 1)"
    unfolding days_before_next_year by simp
  with step show ?case by linarith
qed

lemma month_day_correct:
  assumes "0 \<le> n" and "n < (if leap then 366 else 365)"
  shows "case month_day leap n of
           (m, d) \<Rightarrow> 1 \<le> m \<and> m \<le> 12 \<and> 1 \<le> d
             \<and> d \<le> (if m = 2 \<and> leap then 29 else DAYS_IN_MONTH ! nat (m - 1))
             \<and> DAYS_BEFORE_MONTH ! nat (m - 1) + (if m > 2 \<and> leap then 1 else 0) + d = n + 1"
proof -
  define m0 r where "m0 = (n + 50) div 32" and "r = (n + 50) mod 32"
  have "n + 50 = 32 * m0 + r" "0 \<le> r" "r < 32"
    unfolding m0_def r_def by simp_all
  then have bounds: "32 * m0 \<le> n + 50" "n + 50 < 32 * m0 + 32"
    by linarith+
  have md: "month_day leap n =
     (let m = m0;
          preceding = DAYS_BEFORE_MONTH ! nat (m - 1) + (if m > 2 \<and> leap then 1 else 0)
      in if preceding > n
           then (m - 1,
                 n - (preceding - (DAYS_IN_MONTH ! nat (m - 2)
                                    + (if m - 1 = 2 \<and> leap then 1 else 0))) + 1)
         else (m, n - preceding + 1))"
    unfolding month_day_def m0_def by (rule refl)
  from bounds assms have "1 \<le> m0" "m0 \<le> 12"
    by (auto split: if_splits)
  then consider "m0 = 1" | "m0 = 2" | "m0 = 3" | "m0 = 4" | "m0 = 5" | "m0 = 6"
    | "m0 = 7" | "m0 = 8" | "m0 = 9" | "m0 = 10" | "m0 = 11" | "m0 = 12"
    by atomize_elim arith
  then show ?thesis
  proof cases
    case 1
    with bounds assms show ?thesis
      unfolding md by (auto simp: Let_def DAYS_BEFORE_MONTH_def DAYS_IN_MONTH_def)
  next
    case 2
    with bounds assms show ?thesis
      unfolding md by (auto simp: Let_def DAYS_BEFORE_MONTH_def DAYS_IN_MONTH_def)
  next
    case 3
    with bounds assms show ?thesis
      unfolding md by (auto simp: Let_def DAYS_BEFORE_MONTH_def DAYS_IN_MONTH_def)
  next
    case 4
    with bounds assms show ?thesis
      unfolding md by (auto simp: Let_def DAYS_BEFORE_MONTH_def DAYS_IN_MONTH_def)
  next
    case 5
    with bounds assms show ?thesis
      unfolding md by (auto simp: Let_def DAYS_BEFORE_MONTH_def DAYS_IN_MONTH_def)
  next
    case 6
    with bounds assms show ?thesis
      unfolding md by (auto simp: Let_def DAYS_BEFORE_MONTH_def DAYS_IN_MONTH_def)
  next
    case 7
    with bounds assms show ?thesis
      unfolding md by (auto simp: Let_def DAYS_BEFORE_MONTH_def DAYS_IN_MONTH_def)
  next
    case 8
    with bounds assms show ?thesis
      unfolding md by (auto simp: Let_def DAYS_BEFORE_MONTH_def DAYS_IN_MONTH_def)
  next
    case 9
    with bounds assms show ?thesis
      unfolding md by (auto simp: Let_def DAYS_BEFORE_MONTH_def DAYS_IN_MONTH_def)
  next
    case 10
    with bounds assms show ?thesis
      unfolding md by (auto simp: Let_def DAYS_BEFORE_MONTH_def DAYS_IN_MONTH_def)
  next
    case 11
    with bounds assms show ?thesis
      unfolding md by (auto simp: Let_def DAYS_BEFORE_MONTH_def DAYS_IN_MONTH_def)
  next
    case 12
    with bounds assms show ?thesis
      unfolding md by (auto simp: Let_def DAYS_BEFORE_MONTH_def DAYS_IN_MONTH_def)
  qed
qed

lemma year_split:
  fixes a b c e :: int
  assumes "0 \<le> e" "e \<le> 3" "0 \<le> c" "c \<le> 24" "0 \<le> b" "b \<le> 3"
  shows "days_before_year (400 * a + 100 * b + 4 * c + e + 1)
           = 146097 * a + 36524 * b + 1461 * c + 365 * e"
    and "is_leap (400 * a + 100 * b + 4 * c + e + 1) \<longleftrightarrow> e = 3 \<and> (c \<noteq> 24 \<or> b = 3)"
proof -
  define y where "y = 400 * a + 100 * b + 4 * c + e"
  have q4: "y div 4 = 100 * a + 25 * b + c"
    using assms by (intro int_div_pos_eq [where r = e]) (simp_all add: y_def)
  have q100: "y div 100 = 4 * a + b"
    using assms by (intro int_div_pos_eq [where r = "4 * c + e"]) (simp_all add: y_def)
  have q400: "y div 400 = a"
    using assms by (intro int_div_pos_eq [where r = "100 * b + 4 * c + e"]) (simp_all add: y_def)
  have "days_before_year (y + 1) = y * 365 + y div 4 - y div 100 + y div 400"
    unfolding days_before_year_def by (simp only: add_diff_cancel_right')
  also have "\<dots> = 146097 * a + 36524 * b + 1461 * c + 365 * e"
    unfolding q4 q100 q400 by (simp add: y_def)
  finally show "days_before_year (400 * a + 100 * b + 4 * c + e + 1)
           = 146097 * a + 36524 * b + 1461 * c + 365 * e"
    by (simp only: y_def)
  have m4: "(y + 1) mod 4 = 0 \<longleftrightarrow> e = 3"
  proof (cases "e = 3")
    case True
    have "(y + 1) mod 4 = 0"
      using True by (intro int_mod_pos_eq [where q = "100 * a + 25 * b + c + 1"]) (simp_all add: y_def)
    with True show ?thesis by simp
  next
    case False
    have "(y + 1) mod 4 = e + 1"
      using False assms
      by (intro int_mod_pos_eq [where q = "100 * a + 25 * b + c"]) (simp_all add: y_def)
    with False assms show ?thesis by simp
  qed
  have m100: "(y + 1) mod 100 = 0 \<longleftrightarrow> c = 24" if "e = 3"
  proof (cases "c = 24")
    case True
    have "(y + 1) mod 100 = 0"
      using True that by (intro int_mod_pos_eq [where q = "4 * a + b + 1"]) (simp_all add: y_def)
    with True show ?thesis by simp
  next
    case False
    have "(y + 1) mod 100 = 4 * c + 4"
      using False that assms
      by (intro int_mod_pos_eq [where q = "4 * a + b"]) (simp_all add: y_def)
    with False assms show ?thesis by simp
  qed
  have m400: "(y + 1) mod 400 = 0 \<longleftrightarrow> b = 3" if "e = 3" "c = 24"
  proof (cases "b = 3")
    case True
    have "(y + 1) mod 400 = 0"
      using True that by (intro int_mod_pos_eq [where q = "a + 1"]) (simp_all add: y_def)
    with True show ?thesis by simp
  next
    case False
    have "(y + 1) mod 400 = 100 * b + 100"
      using False that assms
      by (intro int_mod_pos_eq [where q = a]) (simp_all add: y_def)
    with False assms show ?thesis by simp
  qed
  define M4 M100 M400 where "M4 \<longleftrightarrow> (y + 1) mod 4 = 0" and "M100 \<longleftrightarrow> (y + 1) mod 100 = 0"
    and "M400 \<longleftrightarrow> (y + 1) mod 400 = 0"
  have f1: "M4 \<longleftrightarrow> e = 3"
    unfolding M4_def by (rule m4)
  have f2: "M100 \<longleftrightarrow> c = 24" if "e = 3"
    unfolding M100_def using that by (rule m100)
  have f3: "M400 \<longleftrightarrow> b = 3" if "e = 3" "c = 24"
    unfolding M400_def using that by (rule m400)
  have f4: "M100" if "M400"
    using that unfolding M100_def M400_def by (rule mod_400_100)
  note facts = f1 f2 f3 f4
  have "is_leap (y + 1) \<longleftrightarrow> M4 \<and> (\<not> M100 \<or> M400)"
    unfolding is_leap_def M4_def M100_def M400_def by (rule refl)
  also have "\<dots> \<longleftrightarrow> e = 3 \<and> (c \<noteq> 24 \<or> b = 3)"
    using facts by blast
  finally have "is_leap (y + 1) \<longleftrightarrow> e = 3 \<and> (c \<noteq> 24 \<or> b = 3)" .
  then show "is_leap (400 * a + 100 * b + 4 * c + e + 1) \<longleftrightarrow> e = 3 \<and> (c \<noteq> 24 \<or> b = 3)"
    by (simp only: y_def)
qed

lemma ord2ymd_roundtrip:
  assumes "1 \<le> ordinal"
  shows "case ord2ymd ordinal of
           (y, m, d) \<Rightarrow> ymd2ord y m d = ordinal \<and> 1 \<le> y \<and> 1 \<le> m \<and> m \<le> 12 \<and> 1 \<le> d
             \<and> d \<le> days_in_month y m"
proof -
  define a r1 where "a = (ordinal - 1) div 146097" and "r1 = (ordinal - 1) mod 146097"
  define b r2 where "b = r1 div 36524" and "r2 = r1 mod 36524"
  define c r3 where "c = r2 div 1461" and "r3 = r2 mod 1461"
  define e r4 where "e = r3 div 365" and "r4 = r3 mod 365"
  have s1: "ordinal - 1 = 146097 * a + r1" "0 \<le> r1" "r1 < 146097"
    unfolding a_def r1_def by simp_all
  have s2: "r1 = 36524 * b + r2" "0 \<le> r2" "r2 < 36524"
    unfolding b_def r2_def by simp_all
  have s3: "r2 = 1461 * c + r3" "0 \<le> r3" "r3 < 1461"
    unfolding c_def r3_def by simp_all
  have s4: "r3 = 365 * e + r4" "0 \<le> r4" "r4 < 365"
    unfolding e_def r4_def by simp_all
  have ranges: "0 \<le> a" "0 \<le> b" "b \<le> 4" "0 \<le> c" "c \<le> 24" "0 \<le> e" "e \<le> 4"
    using assms s1 s2 s3 s4 by linarith+
  define y where "y = a * 400 + 1 + b * 100 + c * 4 + e"
  have result: "ord2ymd ordinal =
      (if e = 4 \<or> b = 4 then (y - 1, 12, 31)
       else (case month_day (e = 3 \<and> (c \<noteq> 24 \<or> b = 3)) r4 of (m, d) \<Rightarrow> (y, m, d)))"
    unfolding ord2ymd_def Let_def y_def e_def r4_def c_def r3_def b_def r2_def a_def r1_def
    by (rule refl)
  consider (century) "b = 4" | (leapday) "b \<le> 3" "e = 4" | (normal) "b \<le> 3" "e \<le> 3"
    using ranges by linarith
  then show ?thesis
  proof cases
    case century
    with s1 s2 s3 s4 ranges have zero: "r1 = 146096" "c = 0" "e = 0" "r4 = 0"
      by linarith+
    have yeq: "y - 1 = 400 * a + 100 * 3 + 4 * 24 + 3 + 1"
      unfolding y_def using century zero by simp
    have dby: "days_before_year (y - 1) = 146097 * a + 36524 * 3 + 1461 * 24 + 365 * 3"
      and leap: "is_leap (y - 1)"
      unfolding yeq using year_split [of 3 24 3 a] by simp_all
    have "ymd2ord (y - 1) 12 31 = ordinal"
      using s1 zero leap
      by (simp add: ymd2ord_def dby days_before_month_def DAYS_BEFORE_MONTH_def)
    moreover have "1 \<le> y - 1"
      unfolding yeq using ranges by linarith
    moreover have "31 \<le> days_in_month (y - 1) 12"
      by (simp add: days_in_month_def DAYS_IN_MONTH_def)
    ultimately show ?thesis
      using century by (simp add: result)
  next
    case leapday
    with s1 s2 s3 s4 ranges have zero: "r4 = 0" "c \<le> 23"
      by linarith+
    have yeq: "y - 1 = 400 * a + 100 * b + 4 * c + 3 + 1"
      unfolding y_def using leapday by simp
    have dby: "days_before_year (y - 1) = 146097 * a + 36524 * b + 1461 * c + 365 * 3"
      and leap: "is_leap (y - 1)"
      unfolding yeq using year_split [of 3 c b a] ranges leapday zero by simp_all
    have "ymd2ord (y - 1) 12 31 = ordinal"
      using s1 s2 s3 s4 zero leap leapday
      by (simp add: ymd2ord_def dby days_before_month_def DAYS_BEFORE_MONTH_def)
    moreover have "1 \<le> y - 1"
      unfolding yeq using ranges by linarith
    moreover have "31 \<le> days_in_month (y - 1) 12"
      by (simp add: days_in_month_def DAYS_IN_MONTH_def)
    ultimately show ?thesis
      using leapday by (simp add: result)
  next
    case normal
    define leap where "leap \<longleftrightarrow> e = 3 \<and> (c \<noteq> 24 \<or> b = 3)"
    have yeq: "y = 400 * a + 100 * b + 4 * c + e + 1"
      unfolding y_def by simp
    have dby: "days_before_year y = 146097 * a + 36524 * b + 1461 * c + 365 * e"
      and is_leap: "is_leap y \<longleftrightarrow> leap"
      unfolding yeq leap_def using year_split [of e c b a] ranges normal by simp_all
    obtain m d where md: "month_day leap r4 = (m, d)"
      by (cases "month_day leap r4")
    have "r4 < (if leap then 366 else 365)"
      using s4 by simp
    from month_day_correct [OF s4(2) this] md
    have m: "1 \<le> m" "m \<le> 12" "1 \<le> d"
      and dim: "d \<le> (if m = 2 \<and> leap then 29 else DAYS_IN_MONTH ! nat (m - 1))"
      and dbm: "DAYS_BEFORE_MONTH ! nat (m - 1) + (if m > 2 \<and> leap then 1 else 0) + d = r4 + 1"
      by simp_all
    have ord: "ymd2ord y m d = ordinal"
      unfolding ymd2ord_def dby days_before_month_def is_leap
      using dbm s1 s2 s3 s4 by linarith
    have "d \<le> days_in_month y m"
      unfolding days_in_month_def is_leap using dim by simp
    moreover have "1 \<le> y"
      unfolding yeq using ranges by linarith
    moreover have "ord2ymd ordinal = (y, m, d)"
      using normal md by (simp add: result leap_def)
    ultimately show ?thesis
      using m ord by simp
  qed
qed

lemma ymd2ord_within_year:
  assumes "1 \<le> m" "m \<le> 12" "1 \<le> d" "d \<le> days_in_month y m"
  shows "days_before_year y < ymd2ord y m d \<and> ymd2ord y m d \<le> days_before_year (y + 1)"
proof -
  from assms(1,2) consider "m = 1" | "m = 2" | "m = 3" | "m = 4" | "m = 5" | "m = 6"
    | "m = 7" | "m = 8" | "m = 9" | "m = 10" | "m = 11" | "m = 12"
    by atomize_elim arith
  then show ?thesis
  proof cases
    case 1
    with assms show ?thesis
      by (simp add: ymd2ord_def days_before_month_def days_in_month_def DAYS_BEFORE_MONTH_def
            DAYS_IN_MONTH_def days_before_next_year split: if_splits)
  next
    case 2
    with assms show ?thesis
      by (simp add: ymd2ord_def days_before_month_def days_in_month_def DAYS_BEFORE_MONTH_def
            DAYS_IN_MONTH_def days_before_next_year split: if_splits)
  next
    case 3
    with assms show ?thesis
      by (simp add: ymd2ord_def days_before_month_def days_in_month_def DAYS_BEFORE_MONTH_def
            DAYS_IN_MONTH_def days_before_next_year split: if_splits)
  next
    case 4
    with assms show ?thesis
      by (simp add: ymd2ord_def days_before_month_def days_in_month_def DAYS_BEFORE_MONTH_def
            DAYS_IN_MONTH_def days_before_next_year split: if_splits)
  next
    case 5
    with assms show ?thesis
      by (simp add: ymd2ord_def days_before_month_def days_in_month_def DAYS_BEFORE_MONTH_def
            DAYS_IN_MONTH_def days_before_next_year split: if_splits)
  next
    case 6
    with assms show ?thesis
      by (simp add: ymd2ord_def days_before_month_def days_in_month_def DAYS_BEFORE_MONTH_def
            DAYS_IN_MONTH_def days_before_next_year split: if_splits)
  next
    case 7
    with assms show ?thesis
      by (simp add: ymd2ord_def days_before_month_def days_in_month_def DAYS_BEFORE_MONTH_def
            DAYS_IN_MONTH_def days_before_next_year split: if_splits)
  next
    case 8
    with assms show ?thesis
      by (simp add: ymd2ord_def days_before_month_def days_in_month_def DAYS_BEFORE_MONTH_def
            DAYS_IN_MONTH_def days_before_next_year split: if_splits)
  next
    case 9
    with assms show ?thesis
      by (simp add: ymd2ord_def days_before_month_def days_in_month_def DAYS_BEFORE_MONTH_def
            DAYS_IN_MONTH_def days_before_next_year split: if_splits)
  next
    case 10
    with assms show ?thesis
      by (simp add: ymd2ord_def days_before_month_def days_in_month_def DAYS_BEFORE_MONTH_def
            DAYS_IN_MONTH_def days_before_next_year split: if_splits)
  next
    case 11
    with assms show ?thesis
      by (simp add: ymd2ord_def days_before_month_def days_in_month_def DAYS_BEFORE_MONTH_def
            DAYS_IN_MONTH_def days_before_next_year split: if_splits)
  next
    case 12
    with assms show ?thesis
      by (simp add: ymd2ord_def days_before_month_def days_in_month_def DAYS_BEFORE_MONTH_def
            DAYS_IN_MONTH_def days_before_next_year split: if_splits)
  qed
qed

lemma year_of_ordinal:
  assumes "1 \<le> m" "m \<le> 12" "1 \<le> d" "d \<le> days_in_month y m"
  shows "364878 \<le> ymd2ord y m d \<Longrightarrow> 1000 \<le> y"
    and "ymd2ord y m d \<le> MAXORDINAL \<Longrightarrow> y \<le> 9999"
proof -
  note within = ymd2ord_within_year [OF assms]
  have low: "days_before_year 1000 = 364877" and high: "days_before_year 10000 = 3652059"
    by (simp_all add: days_before_year_def)
  show "1000 \<le> y" if "364878 \<le> ymd2ord y m d"
  proof (rule ccontr)
    assume "\<not> 1000 \<le> y"
    then have "y + 1 \<le> 1000" by simp
    from days_before_year_mono [OF this] within that low show False
      by linarith
  qed
  show "y \<le> 9999" if "ymd2ord y m d \<le> MAXORDINAL"
  proof (rule ccontr)
    assume "\<not> y \<le> 9999"
    then have "10000 \<le> y" by simp
    from days_before_year_mono [OF this] within that high show False
      by (simp add: MAXORDINAL_def)
  qed
qed

lemma digit_value_digit:
  assumes "0 \<le> v" "v \<le> 9"
  shows "digit_value (digit v) = Some v"
proof -
  from assms consider "v = 0" | "v = 1" | "v = 2" | "v = 3" | "v = 4" | "v = 5" | "v = 6"
    | "v = 7" | "v = 8" | "v = 9"
    by atomize_elim arith
  then show ?thesis
    by cases (simp_all add: digit_def digit_value_def)
qed

lemma length_pad: "length (pad k n) = k"
  by (induction k arbitrary: n) simp_all

lemma number_from_append:
  "number_from acc (xs @ ys)
     = (case number_from acc xs of None \<Rightarrow> None | Some v \<Rightarrow> number_from v ys)"
  by (induction xs arbitrary: acc) (simp_all split: option.splits)

lemma number_from_pad:
  "0 \<le> n \<Longrightarrow> n < 10 ^ k \<Longrightarrow> number_from acc (pad k n) = Some (acc * 10 ^ k + n)"
proof (induction k arbitrary: n)
  case 0
  then show ?case by simp
next
  case (Suc k)
  define q r where "q = n div 10" and "r = n mod 10"
  have split: "n = 10 * q + r" "0 \<le> r" "r \<le> 9"
    unfolding q_def r_def by simp_all
  with Suc.prems have "0 \<le> q" "q < 10 ^ k"
    by simp_all
  from Suc.IH [OF this] have "number_from acc (pad k q) = Some (acc * 10 ^ k + q)" .
  moreover have "pad (Suc k) n = pad k q @ [digit r]"
    by (simp add: q_def r_def)
  moreover have "10 * (acc * 10 ^ k + q) + r = acc * 10 ^ Suc k + n"
    unfolding split(1) by (simp add: algebra_simps)
  ultimately show ?case
    using digit_value_digit [OF split(2,3)] by (simp add: number_from_append)
qed

lemma number_pad: "0 \<le> n \<Longrightarrow> n < 10 ^ k \<Longrightarrow> 0 < k \<Longrightarrow> number (pad k n) = Some n"
  using number_from_pad [of n k 0] length_pad [of k n] by (auto simp: number_def)

lemma decimal_pad:
  "10 ^ k \<le> n \<Longrightarrow> n < 10 ^ Suc k \<Longrightarrow> decimal n = pad (Suc k) (int n)"
proof (induction k arbitrary: n)
  case 0
  then show ?case
    by (subst decimal.simps) simp
next
  case (Suc k)
  have "1 \<le> (10::nat) ^ k"
    by simp
  moreover from Suc.prems have "10 * 10 ^ k \<le> n"
    by simp
  ultimately have big: "\<not> n < 10"
    by linarith
  have "10 ^ k \<le> n div 10" "n div 10 < 10 ^ Suc k"
    using Suc.prems by (simp_all add: less_eq_div_iff_mult_less_eq div_less_iff_less_mult mult.commute)
  from Suc.IH [OF this] have "decimal (n div 10) = pad (Suc k) (int (n div 10))" .
  with big show ?case
    by (subst decimal.simps) (simp add: zdiv_int zmod_int)
qed

lemma length_2E:
  assumes "length xs = 2"
  obtains a b where "xs = [a, b]"
  using assms by (auto simp: length_Suc_conv numeral_2_eq_2)

lemma length_4E:
  assumes "length xs = 4"
  obtains a b c d where "xs = [a, b, c, d]"
  using assms by (auto simp: length_Suc_conv eval_nat_numeral)

lemma parse_parts:
  assumes "length ys = 4" "length mo = 2" "length ds = 2" "length hs = 2" "length ms = 2"
    "length ss = 2"
  shows "parse_timestamp (ys @ ''-'' @ mo @ ''-'' @ ds @ ''T'' @ hs @ '':'' @ ms @ '':'' @ ss @ ''Z'')
           = (case (number ys, number mo, number ds, number hs, number ms, number ss) of
                (Some y, Some m, Some d, Some h, Some mi, Some sec) \<Rightarrow>
                  Some \<lparr>year = y, month = m, day = d, hour = h, minute = mi, second = sec,
                        microsecond = 0\<rparr>
              | _ \<Rightarrow> None)"
proof -
  from assms(1) obtain y1 y2 y3 y4 where ys: "ys = [y1, y2, y3, y4]" by (rule length_4E)
  from assms(2) obtain m1 m2 where mo: "mo = [m1, m2]" by (rule length_2E)
  from assms(3) obtain d1 d2 where ds: "ds = [d1, d2]" by (rule length_2E)
  from assms(4) obtain h1 h2 where hs: "hs = [h1, h2]" by (rule length_2E)
  from assms(5) obtain n1 n2 where ms: "ms = [n1, n2]" by (rule length_2E)
  from assms(6) obtain s1 s2 where ss: "ss = [s1, s2]" by (rule length_2E)
  show ?thesis
    unfolding ys mo ds hs ms ss parse_timestamp_def by simp
qed

lemma parse_strftime:
  assumes "1000 \<le> year t" "year t \<le> 9999" "0 \<le> month t" "month t < 100"
    "0 \<le> day t" "day t < 100" "0 \<le> hour t" "hour t < 100" "0 \<le> minute t" "minute t < 100"
    "0 \<le> second t" "second t < 100"
  shows "parse_timestamp (strftime t) = Some (t\<lparr>microsecond := 0\<rparr>)"
proof -
  have "decimal (nat (year t)) = pad (Suc 3) (int (nat (year t)))"
    using assms(1,2) by (intro decimal_pad) simp_all
  then have y: "decimal (nat (year t)) = pad 4 (year t)"
    using assms(1) by (simp add: eval_nat_numeral)
  have numbers: "number (pad 4 (year t)) = Some (year t)"
    "number (pad 2 (month t)) = Some (month t)" "number (pad 2 (day t)) = Some (day t)"
    "number (pad 2 (hour t)) = Some (hour t)" "number (pad 2 (minute t)) = Some (minute t)"
    "number (pad 2 (second t)) = Some (second t)"
    using assms by (simp_all add: number_pad)
  show ?thesis
    unfolding strftime_def y
    by (subst parse_parts) (simp_all only: length_pad numbers prod.case option.case
          datetime.surjective datetime.update_convs unit.exhaust, simp_all)
qed

lemma days_in_month_le:
  assumes "1 \<le> m" "m \<le> 12"
  shows "days_in_month y m \<le> 31"
proof -
  from assms consider "m = 1" | "m = 2" | "m = 3" | "m = 4" | "m = 5" | "m = 6"
    | "m = 7" | "m = 8" | "m = 9" | "m = 10" | "m = 11" | "m = 12"
    by atomize_elim arith
  then show ?thesis
    by cases (simp_all add: days_in_month_def DAYS_IN_MONTH_def)
qed

lemma toordinal_range:
  assumes "valid_datetime t"
  shows "1 \<le> toordinal t" "toordinal t \<le> MAXORDINAL"
proof -
  from assms have date: "1 \<le> month t" "month t \<le> 12" "1 \<le> day t"
    "day t \<le> days_in_month (year t) (month t)" and y: "1 \<le> year t" "year t + 1 \<le> 10000"
    by (simp_all add: valid_datetime_def)
  note within = ymd2ord_within_year [OF date]
  have "days_before_year 1 = 0" "days_before_year 10000 = 3652059"
    by (simp_all add: days_before_year_def)
  with within days_before_year_mono [OF y(1)] days_before_year_mono [OF y(2)]
  show "1 \<le> toordinal t" "toordinal t \<le> MAXORDINAL"
    unfolding toordinal_def MAXORDINAL_def by linarith+
qed

lemma minus_days_exact:
  assumes "valid_datetime t" "0 \<le> d" "d < toordinal t"
  shows "\<exists>s. minus_days t d = Inr s \<and> valid_datetime s \<and> toordinal s = toordinal t - d
           \<and> hour s = hour t \<and> minute s = minute t \<and> second s = second t
           \<and> microsecond s = microsecond t"
proof -
  define n where "n = toordinal t - d"
  have n: "1 \<le> n" "n \<le> MAXORDINAL"
    using assms toordinal_range [OF assms(1)] by (simp_all add: n_def)
  obtain y m dd where ymd: "ord2ymd n = (y, m, dd)"
    by (cases "ord2ymd n") auto
  from ord2ymd_roundtrip [OF n(1)] ymd
  have again: "ymd2ord y m dd = n" and date: "1 \<le> m" "m \<le> 12" "1 \<le> dd" "dd \<le> days_in_month y m"
    and y1: "1 \<le> y"
    by simp_all
  from year_of_ordinal(2) [OF date] again n(2) have y2: "y \<le> 9999"
    by simp
  let ?s = "t\<lparr>year := y, month := m, day := dd\<rparr>"
  have "minus_days t d = Inr ?s"
    using n ymd by (simp add: minus_days_def n_def Let_def)
  moreover have "valid_datetime ?s"
    using assms(1) date y1 y2 by (simp add: valid_datetime_def)
  moreover have "toordinal ?s = toordinal t - d"
    using again by (simp add: toordinal_def n_def)
  ultimately show ?thesis
    by (intro exI [of _ ?s]) simp
qed

lemma minus_days_overflow:
  assumes "toordinal t \<le> d"
  shows "minus_days t d = Inl OverflowError"
  using assms by (simp add: minus_days_def Let_def)

lemma parse_strftime_valid:
  assumes "valid_datetime t" "364878 \<le> toordinal t"
  shows "parse_timestamp (strftime t) = Some (t\<lparr>microsecond := 0\<rparr>)"
proof -
  from assms(1) have date: "1 \<le> month t" "month t \<le> 12" "1 \<le> day t"
    "day t \<le> days_in_month (year t) (month t)"
    by (simp_all add: valid_datetime_def)
  from year_of_ordinal(1) [OF date] assms(2) have "1000 \<le> year t"
    by (simp add: toordinal_def)
  moreover from days_in_month_le [OF date(1,2), of "year t"] date(4) have "day t < 100"
    by linarith
  ultimately show ?thesis
    using assms(1) by (intro parse_strftime) (simp_all add: valid_datetime_def)
qed

section \<open>Properties of the time range\<close>

lemma instant_ignores_microsecond: "instant (t\<lparr>microsecond := u\<rparr>) = instant t"
  by (simp add: instant_def toordinal_def)

lemma create_overflow:
  "time_range w d = Inl e \<Longrightarrow> create_data_export cfg w d log_types s = (Inl e, s)"
  by (simp add: create_data_export_def bind_def lift_def)

lemma example_now_valid: "valid_datetime example_now"
  by (simp add: example_now_def valid_datetime_def days_in_month_def DAYS_IN_MONTH_def
      is_leap_def)

lemma example_now_ordinal: "toordinal example_now = 738946"
  by (simp add: example_now_def toordinal_def ymd2ord_def days_before_year_def
      days_before_month_def DAYS_BEFORE_MONTH_def is_leap_def)

text \<open>
  C3. The time range of \<open>create_data_export\<close> ends at the current UTC time and starts
  \<open>d\<close> days earlier, for a valid current time and every \<open>d\<close> from 0 up to, but not
  including, the ordinal of the current date: the start is a valid date and time exactly
  \<open>d * 86400\<close> seconds before the end. When the start is not before the year 1000
  (\<open>d\<close> is at most the ordinal of the current date minus 364878), the two strings put in the
  posted payload read back, in the layout \<open>YYYY-MM-DDTHH:MM:SSZ\<close>, as the current time
  without its microseconds and as a time exactly \<open>d\<close> days before it. When \<open>d\<close> is the
  ordinal of the current date or more, the subtraction leaves the calendar: \<open>OverflowError\<close>
  is raised, and \<open>create_data_export\<close> ends with it, its state unchanged (nothing printed,
  nothing sent).
\<close>

theorem time_range_exact:
  "valid_datetime (utc_now w) \<and> 0 \<le> d \<longrightarrow>
     (d < toordinal (utc_now w) \<longrightarrow>
        (\<exists>start_dt. minus_days (utc_now w) d = Inr start_dt \<and> valid_datetime start_dt
            \<and> time_range w d = Inr (strftime start_dt, strftime (utc_now w))
            \<and> instant (utc_now w) - instant start_dt = d * 86400))
     \<and> (d \<le> toordinal (utc_now w) - 364878 \<longrightarrow>
        (\<exists>start_time end_time s e.
            time_range w d = Inr (start_time, end_time)
            \<and> posted (trace (snd (create_data_export cfg w d log_types st)))
                = posted (trace st)
                  @ [Some (JObj (creation_payload cfg start_time end_time log_types))]
            \<and> parse_timestamp end_time = Some e \<and> e = (utc_now w)\<lparr>microsecond := 0\<rparr>
            \<and> parse_timestamp start_time = Some s
            \<and> instant e - instant s = d * 86400))
     \<and> (toordinal (utc_now w) \<le> d \<longrightarrow>
        time_range w d = Inl OverflowError
        \<and> create_data_export cfg w d log_types st = (Inl OverflowError, st))"
proof (intro impI)
  assume "valid_datetime (utc_now w) \<and> 0 \<le> d"
  then have valid: "valid_datetime (utc_now w)" and d: "0 \<le> d"
    by simp_all
  note ord = toordinal_range [OF valid]
  have delta: "timedelta d = Inr d" if "d < toordinal (utc_now w)"
    using that d ord by (simp add: timedelta_def MAXORDINAL_def)
  have exact: "\<exists>start_dt. minus_days (utc_now w) d = Inr start_dt \<and> valid_datetime start_dt
            \<and> toordinal start_dt = toordinal (utc_now w) - d
            \<and> time_range w d = Inr (strftime start_dt, strftime (utc_now w))
            \<and> instant (utc_now w) - instant start_dt = d * 86400"
    if near: "d < toordinal (utc_now w)"
  proof -
    from minus_days_exact [OF valid d near] obtain start_dt
      where s: "minus_days (utc_now w) d = Inr start_dt" "valid_datetime start_dt"
        "toordinal start_dt = toordinal (utc_now w) - d" "hour start_dt = hour (utc_now w)"
        "minute start_dt = minute (utc_now w)" "second start_dt = second (utc_now w)"
      by blast
    have "time_range w d = Inr (strftime start_dt, strftime (utc_now w))"
      using s(1) delta [OF near] by (simp add: time_range_def)
    moreover have "instant (utc_now w) - instant start_dt = d * 86400"
      using s(3-6) by (simp add: instant_def algebra_simps)
    ultimately show ?thesis
      using s(1-3) by blast
  qed
  have formatted: "\<exists>start_time end_time s e.
            time_range w d = Inr (start_time, end_time)
            \<and> posted (trace (snd (create_data_export cfg w d log_types st)))
                = posted (trace st)
                  @ [Some (JObj (creation_payload cfg start_time end_time log_types))]
            \<and> parse_timestamp end_time = Some e \<and> e = (utc_now w)\<lparr>microsecond := 0\<rparr>
            \<and> parse_timestamp start_time = Some s
            \<and> instant e - instant s = d * 86400"
    if late: "d \<le> toordinal (utc_now w) - 364878"
  proof -
    from late have "d < toordinal (utc_now w)" by simp
    from exact [OF this] obtain start_dt
      where s: "valid_datetime start_dt" "toordinal start_dt = toordinal (utc_now w) - d"
        "time_range w d = Inr (strftime start_dt, strftime (utc_now w))"
        "instant (utc_now w) - instant start_dt = d * 86400"
      by blast
    have "364878 \<le> toordinal start_dt" "364878 \<le> toordinal (utc_now w)"
      using late d s(2) by simp_all
    with s(1) valid
    have p: "parse_timestamp (strftime start_dt) = Some (start_dt\<lparr>microsecond := 0\<rparr>)"
      "parse_timestamp (strftime (utc_now w)) = Some ((utc_now w)\<lparr>microsecond := 0\<rparr>)"
      by (simp_all add: parse_strftime_valid)
    show ?thesis
      using s(3,4) p create_posts_payload [OF s(3)]
      by (intro exI [of _ "strftime start_dt"] exI [of _ "strftime (utc_now w)"]
            exI [of _ "start_dt\<lparr>microsecond := 0\<rparr>"]
            exI [of _ "(utc_now w)\<lparr>microsecond := 0\<rparr>"])
         (simp add: instant_ignores_microsecond)
  qed
  have overflow: "time_range w d = Inl OverflowError
        \<and> create_data_export cfg w d log_types st = (Inl OverflowError, st)"
    if far: "toordinal (utc_now w) \<le> d"
  proof -
    have "time_range w d = Inl OverflowError"
      using minus_days_overflow [OF far] by (simp add: time_range_def timedelta_def)
    with create_overflow [of w d OverflowError] show ?thesis by simp
  qed
  from exact formatted overflow
  show "(d < toordinal (utc_now w) \<longrightarrow>
        (\<exists>start_dt. minus_days (utc_now w) d = Inr start_dt \<and> valid_datetime start_dt
            \<and> time_range w d = Inr (strftime start_dt, strftime (utc_now w))
            \<and> instant (utc_now w) - instant start_dt = d * 86400))
     \<and> (d \<le> toordinal (utc_now w) - 364878 \<longrightarrow>
        (\<exists>start_time end_time s e.
            time_range w d = Inr (start_time, end_time)
            \<and> posted (trace (snd (create_data_export cfg w d log_types st)))
                = posted (trace st)
                  @ [Some (JObj (creation_payload cfg start_time end_time log_types))]
            \<and> parse_timestamp end_time = Some e \<and> e = (utc_now w)\<lparr>microsecond := 0\<rparr>
            \<and> parse_timestamp start_time = Some s
            \<and> instant e - instant s = d * 86400))
     \<and> (toordinal (utc_now w) \<le> d \<longrightarrow>
        time_range w d = Inl OverflowError
        \<and> create_data_export cfg w d log_types st = (Inl OverflowError, st))"
    by blast
qed

theorem time_range_exact_witness:
  "\<exists>s e. time_range (example_world (stages [])) 1
            = Inr (''2024-02-29T12:30:45Z'', ''2024-03-01T12:30:45Z'')
     \<and> parse_timestamp ''2024-02-29T12:30:45Z'' = Some s
     \<and> parse_timestamp ''2024-03-01T12:30:45Z'' = Some e
     \<and> instant e - instant s = 86400"
proof -
  have pre: "valid_datetime (utc_now (example_world (stages []))) \<and> (0::int) \<le> 1"
    using example_now_valid by (simp add: example_world_def)
  have near: "(1::int) \<le> toordinal (utc_now (example_world (stages []))) - 364878"
    using example_now_ordinal by (simp add: example_world_def)
  from time_range_exact [where w = "example_world (stages [])" and d = 1
      and cfg = example_config and log_types = None and st = start,
      THEN mp, OF pre, THEN conjunct2, THEN conjunct1, THEN mp, OF near]
  show ?thesis
    using example_time_range [of "stages []"] by auto
qed

text \<open>
  The range does not exist for every \<open>d \<ge> 0\<close>: on 2024-03-01, a valid current time,
  800000 days back is before the year 1, and \<open>create_data_export\<close> raises
  \<open>OverflowError\<close> before it prints or sends anything.
\<close>

theorem time_range_out_of_calendar:
  "valid_datetime (utc_now (example_world (stages []))) \<and> (0::int) \<le> 800000
   \<and> time_range (example_world (stages [])) 800000 = Inl OverflowError
   \<and> create_data_export example_config (example_world (stages [])) 800000 None start
       = (Inl OverflowError, start)"
proof -
  have "time_range (example_world (stages [])) 800000 = Inl OverflowError"
    using example_now_ordinal
    by (simp add: time_range_def timedelta_def minus_days_def Let_def example_world_def)
  then show ?thesis
    using example_now_valid
    by (simp add: create_data_export_def bind_def lift_def example_world_def)
qed

end
